theory Spec2Isabelle
  imports Main "HOL-Library.Word"
begin

text \<open>
  The ingestion and authentication core of \<open>index.js\<close>: the schema inferrer
  \<open>getDataType\<close>, the catalog loader \<open>updateKEVCatalogFromCSV\<close>, the auth gate
  \<open>verifyApiKey\<close>, key issuance (\<open>generateApiKey\<close> and \<open>POST /api-keys\<close>) and the handler
  of \<open>GET /count\<close>. Each function takes the state it reads (the database behind the
  connection, the temporary file) and returns it updated; an exception is the \<open>Inl\<close> of
  a sum. What lies outside the program (the database server and its client library, the
  network, the file system, the CSV parser, the random source, the clock) is a
  parameter.
\<close>

section \<open>JavaScript strings\<close>

text \<open>
  A JavaScript string is a sequence of 16-bit code units. Source literals are ASCII and
  are written through \<open>js\<close>.
\<close>

type_synonym jschar = "16 word"
type_synonym jsstring = "jschar list"

definition js :: "string \<Rightarrow> jsstring" where
  "js s = map (\<lambda>c. of_nat (of_char c)) s"

text \<open>
  \<open>String.prototype.trim\<close> removes the code units of the ECMAScript productions
  WhiteSpace and LineTerminator from both ends.
\<close>

definition isWhiteSpace :: "jschar \<Rightarrow> bool" where
  "isWhiteSpace c \<longleftrightarrow>
     c \<in> {0x09, 0x0A, 0x0B, 0x0C, 0x0D, 0x20, 0xA0, 0x1680, 0x2028, 0x2029, 0x202F,
          0x205F, 0x3000, 0xFEFF}
     \<or> (0x2000 \<le> c \<and> c \<le> 0x200A)"

definition trim :: "jsstring \<Rightarrow> jsstring" where
  "trim s = rev (dropWhile isWhiteSpace (rev (dropWhile isWhiteSpace s)))"

text \<open>A value is falsy when it is \<open>undefined\<close> (here \<open>None\<close>) or the empty string.\<close>

definition truthy :: "jsstring option \<Rightarrow> bool" where
  "truthy v = (case v of None \<Rightarrow> False | Some s \<Rightarrow> s \<noteq> [])"

text \<open>\<open>a || b\<close>: the left operand when it is truthy, otherwise the right one as it is.\<close>

definition or_else :: "jsstring option \<Rightarrow> jsstring option \<Rightarrow> jsstring option" where
  "or_else a b = (if truthy a then a else b)"


section \<open>Regular expressions of the schema inferrer\<close>

text \<open>
  The two patterns of \<open>getDataType\<close> use the class \<open>\d\<close> (the ASCII digits, as the
  patterns carry no flag), one literal character, sequencing, \<open>*\<close> and \<open>+\<close>. Both are
  anchored with \<open>^\<close> and \<open>$\<close> and carry no \<open>m\<close> flag, so \<open>test\<close> succeeds exactly when the
  whole string matches. Matching is computed with derivatives.
\<close>

definition isDigit :: "jschar \<Rightarrow> bool" where
  "isDigit c \<longleftrightarrow> 0x30 \<le> c \<and> c \<le> 0x39"

datatype atom = Digit | Lit jschar

fun atom_ok :: "atom \<Rightarrow> jschar \<Rightarrow> bool" where
  "atom_ok Digit c = isDigit c"
| "atom_ok (Lit d) c = (c = d)"

datatype regex =
    Fail
  | Empty
  | Sym atom
  | Then regex regex
  | Or regex regex
  | Many regex

definition Many1 :: "regex \<Rightarrow> regex" where
  "Many1 r = Then r (Many r)"

fun nullable :: "regex \<Rightarrow> bool" where
  "nullable Fail = False"
| "nullable Empty = True"
| "nullable (Sym a) = False"
| "nullable (Then r s) = (nullable r \<and> nullable s)"
| "nullable (Or r s) = (nullable r \<or> nullable s)"
| "nullable (Many r) = True"

fun deriv :: "jschar \<Rightarrow> regex \<Rightarrow> regex" where
  "deriv c Fail = Fail"
| "deriv c Empty = Fail"
| "deriv c (Sym a) = (if atom_ok a c then Empty else Fail)"
| "deriv c (Then r s) =
     (if nullable r then Or (Then (deriv c r) s) (deriv c s) else Then (deriv c r) s)"
| "deriv c (Or r s) = Or (deriv c r) (deriv c s)"
| "deriv c (Many r) = Then (deriv c r) (Many r)"

fun test :: "regex \<Rightarrow> jsstring \<Rightarrow> bool" where
  "test r [] = nullable r"
| "test r (c # cs) = test (deriv c r) cs"

text \<open>\<open>/^\d+$/\<close> and \<open>/^\d*\.\d+$/\<close>.\<close>

definition re_integer :: regex where
  "re_integer = Many1 (Sym Digit)"

definition re_float :: regex where
  "re_float = Then (Many (Sym Digit)) (Then (Sym (Lit 0x2E)) (Many1 (Sym Digit)))"

text \<open>
  The words a pattern denotes, used to state what \<open>test\<close> decides.
\<close>

inductive_set star :: "jsstring set \<Rightarrow> jsstring set" for L :: "jsstring set" where
  star_nil: "[] \<in> star L"
| star_app: "u \<in> L \<Longrightarrow> v \<in> star L \<Longrightarrow> u @ v \<in> star L"

fun words :: "regex \<Rightarrow> jsstring set" where
  "words Fail = {}"
| "words Empty = {[]}"
| "words (Sym a) = {[c] | c. atom_ok a c}"
| "words (Then r s) = {u @ v | u v. u \<in> words r \<and> v \<in> words s}"
| "words (Or r s) = words r \<union> words s"
| "words (Many r) = star (words r)"


section \<open>Schema inferrer\<close>

text \<open>
  The column types the inferrer names in the table definition: \<open>'INT'\<close>, \<open>'FLOAT'\<close> and
  \<open>'TEXT'\<close>. \<open>sql_INT\<close> is the type the specification calls INTEGER.
\<close>

datatype sql_type = sql_INT | sql_FLOAT | sql_TEXT

text \<open>
  \<open>getDataType\<close>, lines 99 to 113. The argument is \<open>None\<close> for \<open>undefined\<close>.
\<close>

definition getDataType :: "jsstring option \<Rightarrow> sql_type" where
  "getDataType sampleValue =
     (case sampleValue of
        None \<Rightarrow> sql_TEXT
      | Some s \<Rightarrow>
          if s = [] \<or> trim s = [] then sql_TEXT
          else if test re_integer (trim s) then sql_INT
          else if test re_float (trim s) then sql_FLOAT
          else sql_TEXT)"


section \<open>Errors and JSON values\<close>

text \<open>
  Every exception the program can see carries a message. \<open>Error\<close> is raised by the
  program itself, \<open>TypeError\<close> by the database client's check of bind parameters,
  \<open>StoreError\<close> by the database server, \<open>IOError\<close> by the network and the file system.
\<close>

datatype error =
    Error string
  | TypeError string
  | StoreError string
  | IOError string

fun message :: "error \<Rightarrow> string" where
  "message (Error m) = m"
| "message (TypeError m) = m"
| "message (StoreError m) = m"
| "message (IOError m) = m"

datatype json =
    JNull
  | JNum nat
  | JStr jsstring
  | JArr "json list"
  | JObj "(string \<times> json) list"

text \<open>
  An object literal handed to \<open>res.json\<close>: a property whose value is \<open>undefined\<close> is left
  out of the serialised object.
\<close>

fun object :: "(string \<times> json option) list \<Rightarrow> (string \<times> json) list" where
  "object [] = []"
| "object ((k, None) # ps) = object ps"
| "object ((k, Some v) # ps) = (k, v) # object ps"

type_synonym response = "nat \<times> json"


section \<open>The relational store\<close>

text \<open>
  The table \<open>api_keys\<close> as declared in lines 46 to 55 (the surrogate \<open>id\<close> column, which no
  statement of the program reads, is left out) and the table \<open>KEV_Catalog\<close>, whose columns
  are those of its creating statement. A stored catalog row lists the columns an insert
  named with their values; a column it does not list holds NULL. Timestamps are seconds.
\<close>

record api_key_row =
  api_key :: jsstring
  app_name :: jsstring
  created_at :: nat
  last_used :: "nat option"
  is_active :: bool

datatype param = PUndefined | PNull | PStr jsstring

record kev_table =
  columns :: "(jsstring \<times> sql_type) list"
  rows :: "(jsstring \<times> param) list list"

text \<open>
  The statements the program sends, one constructor per SQL text:
  \<^item> \<open>SelectApiKey\<close>, line 177:
    \<open>SELECT * FROM api_keys WHERE api_key = ? AND is_active = TRUE AND app_name = ?\<close>;
  \<^item> \<open>UpdateLastUsed\<close>, line 187:
    \<open>UPDATE api_keys SET last_used = CURRENT_TIMESTAMP WHERE api_key = ? AND app_name = ?\<close>;
  \<^item> \<open>InsertApiKey\<close>, line 221: \<open>INSERT INTO api_keys (api_key, app_name) VALUES (?, ?)\<close>;
  \<^item> \<open>CreateKevTable\<close>, lines 133 to 139: \<open>CREATE TABLE IF NOT EXISTS KEV_Catalog (...)\<close>
    with the columns and types listed;
  \<^item> \<open>TruncateKev\<close>, line 144: \<open>TRUNCATE TABLE KEV_Catalog\<close>;
  \<^item> \<open>InsertKev\<close>, line 148: \<open>INSERT INTO KEV_Catalog (...) VALUES (?, ..., ?)\<close> with the
    columns listed;
  \<^item> \<open>CountCveID\<close>, line 270: \<open>SELECT COUNT(cveID) as count FROM KEV_Catalog\<close>.
\<close>

datatype stmt =
    SelectApiKey
  | UpdateLastUsed
  | InsertApiKey
  | CreateKevTable "(jsstring \<times> sql_type) list"
  | TruncateKev
  | InsertKev "jsstring list"
  | CountCveID

text \<open>What \<open>const [rows] = await db.execute(...)\<close> binds.\<close>

datatype result =
    RowsOf "api_key_row list"
  | CountOf nat
  | OkPacket

text \<open>
  The state behind the connection \<open>db\<close>: the two tables (\<open>api_keys\<close> exists once the
  server has started; \<open>KEV_Catalog\<close> may not) and, for stating which statements a
  function sends, the calls of \<open>db.execute\<close> made so far, oldest first.
\<close>

record db =
  api_keys :: "api_key_row list"
  KEV_Catalog :: "kev_table option"
  issued :: "(stmt \<times> param list) list"

text \<open>
  What the source leaves to the server it connects to. The columns of \<open>api_keys\<close> are
  declared \<open>VARCHAR\<close> with no collation (lines 49 and 50), so \<open>=\<close> on them compares under
  the collation the database was created with: two strings are equal when \<open>collate\<close> maps
  them to the same key (the identity for a binary collation, case folding for the
  \<open>_ci\<close> collations that are the server's defaults). \<open>refusal\<close> gives the error of a
  statement the server does not carry out for a reason outside this model (a lost
  connection, a value a column does not accept).
\<close>

record config =
  collate :: "jsstring \<Rightarrow> jsstring"
  refusal :: "stmt \<Rightarrow> param list \<Rightarrow> error option"

definition sql_eq :: "config \<Rightarrow> jsstring \<Rightarrow> param \<Rightarrow> bool" where
  "sql_eq cfg v p = (case p of PStr s \<Rightarrow> collate cfg v = collate cfg s | _ \<Rightarrow> False)"

definition cveID :: jsstring where
  "cveID = js ''cveID''"

definition counted :: "(jsstring \<times> param) list \<Rightarrow> bool" where
  "counted row = (case map_of row cveID of Some (PStr v) \<Rightarrow> True | _ \<Rightarrow> False)"

text \<open>
  The server's side of each statement, at time \<open>now\<close> (\<open>CURRENT_TIMESTAMP\<close>). The
  database server is not part of the repository; this is what its SQL dialect makes of
  the seven statements: a comparison with NULL selects nothing; \<open>api_key\<close> is \<open>UNIQUE\<close>
  and both columns of an inserted key are \<open>NOT NULL\<close>; a new key gets the defaults of the
  table declaration (\<open>created_at\<close> the current time, \<open>last_used\<close> NULL, \<open>is_active\<close> true);
  \<open>CREATE TABLE IF NOT EXISTS\<close> leaves an existing table as it is; an insert must name
  known columns; \<open>COUNT(cveID)\<close> counts the rows whose \<open>cveID\<close> is not NULL.
\<close>

definition bad_arguments :: "db \<Rightarrow> (error + result) \<times> db" where
  "bad_arguments d = (Inl (StoreError ''Incorrect arguments to mysqld_stmt_execute''), d)"

definition no_table :: "db \<Rightarrow> (error + result) \<times> db" where
  "no_table d = (Inl (StoreError ''Table KEV_Catalog does not exist''), d)"

definition run :: "config \<Rightarrow> nat \<Rightarrow> stmt \<Rightarrow> param list \<Rightarrow> db \<Rightarrow> (error + result) \<times> db" where
  "run cfg now q ps d =
     (case q of
        SelectApiKey \<Rightarrow>
          (case ps of
             [k, n] \<Rightarrow>
               (Inr (RowsOf (filter (\<lambda>r. sql_eq cfg (api_key r) k \<and> is_active r
                                          \<and> sql_eq cfg (app_name r) n)
                                    (api_keys d))), d)
           | _ \<Rightarrow> bad_arguments d)
      | UpdateLastUsed \<Rightarrow>
          (case ps of
             [k, n] \<Rightarrow>
               (Inr OkPacket,
                d\<lparr>api_keys :=
                    map (\<lambda>r. if sql_eq cfg (api_key r) k \<and> sql_eq cfg (app_name r) n
                              then r\<lparr>last_used := Some now\<rparr> else r)
                        (api_keys d)\<rparr>)
           | _ \<Rightarrow> bad_arguments d)
      | InsertApiKey \<Rightarrow>
          (case ps of
             [PStr k, PStr n] \<Rightarrow>
               if \<exists>r \<in> set (api_keys d). collate cfg (api_key r) = collate cfg k
               then (Inl (StoreError ''Duplicate entry for key api_key''), d)
               else (Inr OkPacket,
                     d\<lparr>api_keys := api_keys d @
                          [\<lparr>api_key = k, app_name = n, created_at = now, last_used = None,
                            is_active = True\<rparr>]\<rparr>)
           | [k, n] \<Rightarrow> (Inl (StoreError ''Column cannot be null''), d)
           | _ \<Rightarrow> bad_arguments d)
      | CreateKevTable cols \<Rightarrow>
          (case ps of
             [] \<Rightarrow>
               if cols = [] then (Inl (StoreError ''You have an error in your SQL syntax''), d)
               else (case KEV_Catalog d of
                       None \<Rightarrow> (Inr OkPacket, d\<lparr>KEV_Catalog := Some \<lparr>columns = cols, rows = []\<rparr>\<rparr>)
                     | Some t \<Rightarrow> (Inr OkPacket, d))
           | _ \<Rightarrow> bad_arguments d)
      | TruncateKev \<Rightarrow>
          (case ps of
             [] \<Rightarrow>
               (case KEV_Catalog d of
                  None \<Rightarrow> no_table d
                | Some t \<Rightarrow> (Inr OkPacket, d\<lparr>KEV_Catalog := Some (t\<lparr>rows := []\<rparr>)\<rparr>))
           | _ \<Rightarrow> bad_arguments d)
      | InsertKev cols \<Rightarrow>
          (case KEV_Catalog d of
             None \<Rightarrow> no_table d
           | Some t \<Rightarrow>
               if length ps \<noteq> length cols then bad_arguments d
               else if \<not> distinct cols then (Inl (StoreError ''Column specified twice''), d)
               else if \<exists>c \<in> set cols. c \<notin> fst ` set (columns t)
                 then (Inl (StoreError ''Unknown column''), d)
               else (Inr OkPacket,
                     d\<lparr>KEV_Catalog := Some (t\<lparr>rows := rows t @ [zip cols ps]\<rparr>)\<rparr>))
      | CountCveID \<Rightarrow>
          (case ps of
             [] \<Rightarrow>
               (case KEV_Catalog d of
                  None \<Rightarrow> no_table d
                | Some t \<Rightarrow>
                    if cveID \<notin> fst ` set (columns t) then (Inl (StoreError ''Unknown column''), d)
                    else (Inr (CountOf (length (filter counted (rows t)))), d))
           | _ \<Rightarrow> bad_arguments d))"

text \<open>
  \<open>db.execute(sql, values)\<close> of the client library: the call is recorded, a bind
  parameter that is \<open>undefined\<close> makes the client reject the call before anything is sent,
  and otherwise the server answers.
\<close>

definition execute :: "config \<Rightarrow> nat \<Rightarrow> stmt \<Rightarrow> param list \<Rightarrow> db \<Rightarrow> (error + result) \<times> db" where
  "execute cfg now q ps d =
     (let d1 = d\<lparr>issued := issued d @ [(q, ps)]\<rparr> in
      if PUndefined \<in> set ps
        then (Inl (TypeError ''Bind parameters must not contain undefined. To pass SQL NULL specify JS null''), d1)
      else case refusal cfg q ps of
             Some e \<Rightarrow> (Inl e, d1)
           | None \<Rightarrow> run cfg now q ps d1)"


section \<open>Auth gate\<close>

text \<open>
  The parts of a request the program reads: the headers \<open>x-api-key\<close> and \<open>app-name\<close>, the
  query parameters \<open>api_key\<close> and \<open>app_name\<close>, and \<open>req.body\<close>. A header or a query
  parameter is a string or absent. \<open>req.body\<close> is what the body parser left: \<open>None\<close> when
  it is \<open>undefined\<close> (a body parser that sets \<open>req.body\<close> only once it has parsed a
  body, on a request that carries none), and otherwise the object, given by its field
  \<open>app_name\<close>, a string or absent (an object without the field is \<open>Some None\<close>; so is the
  object a body parser that always sets \<open>req.body\<close> leaves on a request without a body).
\<close>

record request =
  header_x_api_key :: "jsstring option"
  query_api_key :: "jsstring option"
  header_app_name :: "jsstring option"
  query_app_name :: "jsstring option"
  body :: "jsstring option option"

definition to_param :: "jsstring option \<Rightarrow> param" where
  "to_param v = (case v of None \<Rightarrow> PUndefined | Some s \<Rightarrow> PStr s)"

text \<open>
  A middleware either answers the request, or calls \<open>next()\<close> after setting
  \<open>req.application\<close>, or throws: an exception that leaves \<open>verifyApiKey\<close> makes the
  promise of the \<open>async\<close> function reject, and the function itself sends no response.
\<close>

datatype outcome = Next api_key_row | Respond response | Throws error

definition error_body :: "string \<Rightarrow> json" where
  "error_body m = JObj [(''error'', JStr (js m))]"

text \<open>
  Line 168, \<open>req.header('x-api-key') || req.query.api_key\<close>, and line 169,
  \<open>req.header('app-name') || req.query.app_name || req.body.app_name\<close>. The last operand
  is evaluated only when the first two are falsy, and reading a property of
  \<open>undefined\<close> raises a \<open>TypeError\<close>.
\<close>

definition presented_key :: "request \<Rightarrow> jsstring option" where
  "presented_key req = or_else (header_x_api_key req) (query_api_key req)"

definition claimed_name :: "request \<Rightarrow> error + jsstring option" where
  "claimed_name req =
     (if truthy (header_app_name req) then Inr (header_app_name req)
      else if truthy (query_app_name req) then Inr (query_app_name req)
      else case body req of
             None \<Rightarrow> Inl (TypeError ''Cannot read properties of undefined (reading app_name)'')
           | Some field \<Rightarrow> Inr field)"

text \<open>
  \<open>verifyApiKey\<close>, lines 167 to 196. Lines 168 and 169 come before the check of the key
  and outside the \<open>try\<close> block. The lookup answers with a list of rows, so the last case
  below is never taken; \<open>req.application\<close> is the first row as the lookup returned it.
\<close>

definition verifyApiKey :: "config \<Rightarrow> nat \<Rightarrow> request \<Rightarrow> db \<Rightarrow> outcome \<times> db" where
  "verifyApiKey cfg now req d =
     (let apiKey = presented_key req in
      case claimed_name req of
        Inl thrown \<Rightarrow> (Throws thrown, d)
      | Inr appName \<Rightarrow>
         if \<not> truthy apiKey then (Respond (401, error_body ''API key is required''), d)
         else
           case execute cfg now SelectApiKey [to_param apiKey, to_param appName] d of
             (Inl e, d1) \<Rightarrow> (Respond (500, error_body ''Failed to authenticate API key''), d1)
           | (Inr (RowsOf []), d1) \<Rightarrow> (Respond (401, error_body ''Invalid API key''), d1)
           | (Inr (RowsOf (row # others)), d1) \<Rightarrow>
               (case execute cfg now UpdateLastUsed [to_param apiKey, to_param appName] d1 of
                  (Inl e, d2) \<Rightarrow> (Respond (500, error_body ''Failed to authenticate API key''), d2)
                | (Inr ok, d2) \<Rightarrow> (Next row, d2))
           | (Inr other, d1) \<Rightarrow> (Respond (500, error_body ''Failed to authenticate API key''), d1))"

text \<open>
  A route registered as \<open>app.get(path, verifyApiKey, handler)\<close>: the handler runs only
  when the gate calls \<open>next()\<close>, on the store the gate leaves. The handlers of this
  program catch every exception and answer; when the gate throws, the route sends no
  response of its own and the exception is the result.
\<close>

definition protected ::
  "(config \<Rightarrow> nat \<Rightarrow> api_key_row \<Rightarrow> db \<Rightarrow> response \<times> db) \<Rightarrow>
   config \<Rightarrow> nat \<Rightarrow> request \<Rightarrow> db \<Rightarrow> (error + response) \<times> db" where
  "protected handler cfg now req d =
     (case verifyApiKey cfg now req d of
        (Throws thrown, d1) \<Rightarrow> (Inl thrown, d1)
      | (Respond r, d1) \<Rightarrow> (Inr r, d1)
      | (Next application, d1) \<Rightarrow>
          (case handler cfg now application d1 of (r, d2) \<Rightarrow> (Inr r, d2)))"


section \<open>Key issuance\<close>

text \<open>
  \<open>crypto.randomBytes(n)\<close> reads \<open>n\<close> bytes from the system's random source, here the
  function \<open>entropy\<close>. \<open>toString('hex')\<close> writes each byte as two lowercase hexadecimal
  digits.
\<close>

definition randomBytes :: "(nat \<Rightarrow> 8 word) \<Rightarrow> nat \<Rightarrow> 8 word list" where
  "randomBytes entropy n = map entropy [0..<n]"

definition hex_digit :: "nat \<Rightarrow> jschar" where
  "hex_digit n = (if n < 10 then 0x30 + of_nat n else 0x61 + of_nat (n - 10))"

definition toHex :: "8 word list \<Rightarrow> jsstring" where
  "toHex bs = concat (map (\<lambda>b. [hex_digit (unat b div 16), hex_digit (unat b mod 16)]) bs)"

text \<open>\<open>generateApiKey\<close>, lines 199 to 201.\<close>

definition generateApiKey :: "(nat \<Rightarrow> 8 word) \<Rightarrow> jsstring" where
  "generateApiKey entropy = toHex (randomBytes entropy 32)"

definition is_lower_hex :: "jschar \<Rightarrow> bool" where
  "is_lower_hex c \<longleftrightarrow> (0x30 \<le> c \<and> c \<le> 0x39) \<or> (0x61 \<le> c \<and> c \<le> 0x66)"

text \<open>
  The handler of \<open>POST /api-keys\<close>, lines 214 to 232. The route is registered without
  \<open>verifyApiKey\<close>.
\<close>

definition post_api_keys ::
  "config \<Rightarrow> nat \<Rightarrow> (nat \<Rightarrow> 8 word) \<Rightarrow> request \<Rightarrow> db \<Rightarrow> response \<times> db" where
  "post_api_keys cfg now entropy req d =
     (let appName = header_app_name req;
          apiKey = generateApiKey entropy
      in case execute cfg now InsertApiKey [PStr apiKey, to_param appName] d of
           (Inl e, d1) \<Rightarrow> ((500, error_body (message e)), d1)
         | (Inr ok, d1) \<Rightarrow>
             ((201, JObj (object [(''app_name'', map_option JStr appName),
                                  (''apiKey'', Some (JStr apiKey))])), d1))"


section \<open>Row count\<close>

text \<open>\<open>res.json(rows)\<close>: the rows of a result are serialised as an array of objects.\<close>

definition row_json :: "api_key_row \<Rightarrow> json" where
  "row_json r =
     JObj [(''api_key'', JStr (api_key r)), (''app_name'', JStr (app_name r)),
           (''created_at'', JNum (created_at r)),
           (''last_used'', case last_used r of None \<Rightarrow> JNull | Some t \<Rightarrow> JNum t),
           (''is_active'', JNum (if is_active r then 1 else 0))]"

fun rows_json :: "result \<Rightarrow> json" where
  "rows_json (RowsOf rs) = JArr (map row_json rs)"
| "rows_json (CountOf n) = JArr [JObj [(''count'', JNum n)]]"
| "rows_json OkPacket = JObj []"

text \<open>The handler of \<open>GET /count\<close>, lines 268 to 275, and the route with its gate.\<close>

definition count_handler :: "config \<Rightarrow> nat \<Rightarrow> api_key_row \<Rightarrow> db \<Rightarrow> response \<times> db" where
  "count_handler cfg now application d =
     (case execute cfg now CountCveID [] d of
        (Inl err, d1) \<Rightarrow> ((500, error_body (message err)), d1)
      | (Inr res, d1) \<Rightarrow> ((200, rows_json res), d1))"

definition get_count :: "config \<Rightarrow> nat \<Rightarrow> request \<Rightarrow> db \<Rightarrow> (error + response) \<times> db" where
  "get_count = protected count_handler"


section \<open>Catalog loader\<close>

text \<open>
  A parsed record is an object keyed by the header names; it is the list of its
  properties in the order \<open>Object.keys\<close> enumerates them, and \<open>record[header]\<close> is
  \<open>map_of\<close>. The network, the file system and the CSV parser are outside the program:
  \<open>fetched\<close> is what the download delivers, \<open>write_error\<close> the failure, if any, of
  creating the directory or writing the file, \<open>parse\<close> the CSV parser with the options of
  lines 121 to 125, and \<open>unlink_fails\<close> tells whether removing the file fails.
\<close>

type_synonym kev_record = "(jsstring \<times> jsstring) list"

record env =
  fetched :: "error + jsstring"
  write_error :: "error option"
  parse :: "jsstring \<Rightarrow> error + kev_record list"
  unlink_fails :: bool

record world =
  store :: db
  temp_file :: "jsstring option"

record update_result =
  success :: bool
  recordCount :: nat

text \<open>\<open>downloadCSV\<close>, lines 62 to 96: the promise resolves once the file is written.\<close>

definition downloadCSV :: "env \<Rightarrow> world \<Rightarrow> (error + unit) \<times> world" where
  "downloadCSV e w =
     (case fetched e of
        Inl err \<Rightarrow> (Inl err, w)
      | Inr csvData \<Rightarrow>
          (case write_error e of
             Some err \<Rightarrow> (Inl err, w)
           | None \<Rightarrow> (Inr (), w\<lparr>temp_file := Some csvData\<rparr>)))"

text \<open>\<open>record[header] || null\<close>.\<close>

definition value_or_null :: "jsstring option \<Rightarrow> param" where
  "value_or_null v = (case v of None \<Rightarrow> PNull | Some s \<Rightarrow> if s = [] then PNull else PStr s)"

definition insert_values :: "jsstring list \<Rightarrow> kev_record \<Rightarrow> param list" where
  "insert_values headers r = map (\<lambda>header. value_or_null (map_of r header)) headers"

text \<open>The loop of lines 150 to 153; the first rejected insert ends it.\<close>

fun insert_records ::
  "config \<Rightarrow> nat \<Rightarrow> jsstring list \<Rightarrow> kev_record list \<Rightarrow> db \<Rightarrow> (error + unit) \<times> db" where
  "insert_records cfg now headers [] d = (Inr (), d)"
| "insert_records cfg now headers (r # rs) d =
     (case execute cfg now (InsertKev headers) (insert_values headers r) d of
        (Inl err, d1) \<Rightarrow> (Inl err, d1)
      | (Inr ok, d1) \<Rightarrow> insert_records cfg now headers rs d1)"

definition table_columns :: "kev_record \<Rightarrow> (jsstring \<times> sql_type) list" where
  "table_columns first = map (\<lambda>header. (header, getDataType (map_of first header))) (map fst first)"

text \<open>\<open>updateKEVCatalogFromCSV\<close>, lines 116 to 164; the \<open>catch\<close> block rethrows.\<close>

definition updateKEVCatalogFromCSV ::
  "config \<Rightarrow> env \<Rightarrow> nat \<Rightarrow> world \<Rightarrow> (error + update_result) \<times> world" where
  "updateKEVCatalogFromCSV cfg e now w =
     (case downloadCSV e w of
        (Inl err, w1) \<Rightarrow> (Inl err, w1)
      | (Inr filePath, w1) \<Rightarrow>
          (case temp_file w1 of
             None \<Rightarrow> (Inl (IOError ''ENOENT: no such file or directory''), w1)
           | Some csvContent \<Rightarrow>
               (case parse e csvContent of
                  Inl err \<Rightarrow> (Inl err, w1)
                | Inr [] \<Rightarrow> (Inl (Error ''No data found in CSV file''), w1)
                | Inr (first # others) \<Rightarrow>
                    (let records = first # others;
                         headers = map fst first
                     in case execute cfg now (CreateKevTable (table_columns first)) [] (store w1) of
                          (Inl err, d1) \<Rightarrow> (Inl err, w1\<lparr>store := d1\<rparr>)
                        | (Inr ok1, d1) \<Rightarrow>
                            (case execute cfg now TruncateKev [] d1 of
                               (Inl err, d2) \<Rightarrow> (Inl err, w1\<lparr>store := d2\<rparr>)
                             | (Inr ok2, d2) \<Rightarrow>
                                 (case insert_records cfg now headers records d2 of
                                    (Inl err, d3) \<Rightarrow> (Inl err, w1\<lparr>store := d3\<rparr>)
                                  | (Inr ok3, d3) \<Rightarrow>
                                      (Inr \<lparr>success = True, recordCount = length records\<rparr>,
                                       \<lparr>store = d3,
                                        temp_file = (if unlink_fails e then temp_file w1
                                                     else None)\<rparr>)))))))"


section \<open>Notions used to state the properties\<close>

text \<open>
  What the lookup's \<open>WHERE\<close> clause asks of a row; what the update does to a row; and
  the order on nullable timestamps, NULL first.
\<close>

definition matching :: "config \<Rightarrow> jsstring \<Rightarrow> jsstring \<Rightarrow> api_key_row \<Rightarrow> bool" where
  "matching cfg k n r \<longleftrightarrow>
     collate cfg (api_key r) = collate cfg k \<and> is_active r \<and> collate cfg (app_name r) = collate cfg n"

definition touch :: "config \<Rightarrow> nat \<Rightarrow> jsstring \<Rightarrow> jsstring \<Rightarrow> api_key_row \<Rightarrow> api_key_row" where
  "touch cfg now k n r =
     (if collate cfg (api_key r) = collate cfg k \<and> collate cfg (app_name r) = collate cfg n
      then r\<lparr>last_used := Some now\<rparr> else r)"

fun stamp_le :: "nat option \<Rightarrow> nat option \<Rightarrow> bool" where
  "stamp_le None t = True"
| "stamp_le (Some a) None = False"
| "stamp_le (Some a) (Some b) = (a \<le> b)"

text \<open>
  A run of the two operations that write to \<open>api_keys\<close>, each call with the time the
  clock shows when it is served.
\<close>

datatype call = Issue "nat \<Rightarrow> 8 word" request | Authenticate request

fun serve :: "config \<Rightarrow> (nat \<times> call) list \<Rightarrow> db \<Rightarrow> db" where
  "serve cfg [] d = d"
| "serve cfg ((now, Issue entropy req) # cs) d =
     serve cfg cs (snd (post_api_keys cfg now entropy req d))"
| "serve cfg ((now, Authenticate req) # cs) d =
     serve cfg cs (snd (verifyApiKey cfg now req d))"


section \<open>Two servers\<close>

text \<open>
  A server whose collation is binary and one whose collation folds the ASCII letters,
  both carrying out every statement.
\<close>

definition lower :: "jschar \<Rightarrow> jschar" where
  "lower c = (if 0x41 \<le> c \<and> c \<le> 0x5A then c + 0x20 else c)"

definition binary_server :: config where
  "binary_server = \<lparr>collate = (\<lambda>s. s), refusal = (\<lambda>q ps. None)\<rparr>"

definition ci_server :: config where
  "ci_server = \<lparr>collate = map lower, refusal = (\<lambda>q ps. None)\<rparr>"


section \<open>Sample data\<close>

text \<open>Concrete stores, requests and feeds on which the properties are exercised.\<close>

definition sample_key :: jsstring where
  "sample_key = js ''3fa9''"

definition sample_row :: api_key_row where
  "sample_row = \<lparr>api_key = sample_key, app_name = js ''app1'', created_at = 10,
                  last_used = Some 15, is_active = True\<rparr>"

definition sample_db :: db where
  "sample_db = \<lparr>api_keys = [sample_row], KEV_Catalog = None, issued = []\<rparr>"

definition empty_db :: db where
  "empty_db = \<lparr>api_keys = [], KEV_Catalog = None, issued = []\<rparr>"

definition sample_request :: request where
  "sample_request = \<lparr>header_x_api_key = Some sample_key, query_api_key = None,
                      header_app_name = Some (js ''app1''), query_app_name = None,
                      body = Some None\<rparr>"

definition header_request :: request where
  "header_request = \<lparr>header_x_api_key = None, query_api_key = None,
                      header_app_name = Some (js ''app1''), query_app_name = None,
                      body = Some None\<rparr>"

definition body_only_request :: request where
  "body_only_request = \<lparr>header_x_api_key = None, query_api_key = None,
                         header_app_name = None, query_app_name = None,
                         body = Some (Some (js ''app1''))\<rparr>"

definition bare_request :: request where
  "bare_request = \<lparr>header_x_api_key = None, query_api_key = None,
                    header_app_name = None, query_app_name = None, body = None\<rparr>"

definition unparsed_request :: request where
  "unparsed_request = \<lparr>header_x_api_key = Some sample_key, query_api_key = None,
                        header_app_name = None, query_app_name = None, body = None\<rparr>"

definition empty_name_request :: request where
  "empty_name_request = \<lparr>header_x_api_key = Some sample_key, query_api_key = None,
                          header_app_name = None, query_app_name = None,
                          body = Some (Some [])\<rparr>"

definition sample_entropy :: "nat \<Rightarrow> 8 word" where
  "sample_entropy i = of_nat (7 * i + 3)"

definition catalog_db :: db where
  "catalog_db =
     \<lparr>api_keys = [sample_row],
      KEV_Catalog = Some \<lparr>columns = [(cveID, sql_TEXT), (js ''vendorProject'', sql_TEXT)],
                          rows = [[(cveID, PStr (js ''CVE-2021-27104'')),
                                   (js ''vendorProject'', PStr (js ''Accellion''))],
                                  [(cveID, PNull),
                                   (js ''vendorProject'', PStr (js ''Adobe''))]]\<rparr>,
      issued = []\<rparr>"

definition full_catalog_db :: db where
  "full_catalog_db =
     \<lparr>api_keys = [sample_row],
      KEV_Catalog = Some \<lparr>columns = [(cveID, sql_TEXT), (js ''vendorProject'', sql_TEXT)],
                          rows = [[(cveID, PStr (js ''CVE-2021-27104'')),
                                   (js ''vendorProject'', PStr (js ''Accellion''))],
                                  [(cveID, PStr (js ''CVE-2021-21017'')),
                                   (js ''vendorProject'', PStr (js ''Adobe''))]]\<rparr>,
      issued = []\<rparr>"

definition sample_record1 :: kev_record where
  "sample_record1 = [(cveID, js ''CVE-2021-27104''), (js ''vendorProject'', js ''Accellion''),
                     (js ''cwes'', js ''78'')]"

definition sample_record2 :: kev_record where
  "sample_record2 = [(cveID, js ''CVE-2021-21017''), (js ''vendorProject'', js ''Adobe''),
                     (js ''cwes'', [])]"

definition sample_csv :: jsstring where
  "sample_csv = js ''cveID,vendorProject,cwes''"

definition sample_feed :: env where
  "sample_feed = \<lparr>fetched = Inr sample_csv, write_error = None,
                   parse = (\<lambda>content. Inr [sample_record1, sample_record2]),
                   unlink_fails = False\<rparr>"

definition header_only_feed :: env where
  "header_only_feed = \<lparr>fetched = Inr sample_csv, write_error = None,
                        parse = (\<lambda>content. Inr []), unlink_fails = False\<rparr>"

definition sample_world :: world where
  "sample_world = \<lparr>store = full_catalog_db, temp_file = None\<rparr>"

definition fresh_world :: world where
  "fresh_world = \<lparr>store = sample_db, temp_file = None\<rparr>"


section \<open>What the patterns match\<close>

lemma nullable_words: "nullable r \<longleftrightarrow> [] \<in> words r"
  by (induction r) (auto intro: star.intros)

lemma star_cons:
  "c # cs \<in> star L \<longleftrightarrow> (\<exists>u v. cs = u @ v \<and> c # u \<in> L \<and> v \<in> star L)"
proof
  assume "c # cs \<in> star L"
  then show "\<exists>u v. cs = u @ v \<and> c # u \<in> L \<and> v \<in> star L"
  proof (induction "c # cs" rule: star.induct)
    case (star_app u v)
    show ?case
    proof (cases u)
      case Nil
      with star_app show ?thesis by simp
    next
      case (Cons a u')
      with star_app show ?thesis by auto
    qed
  qed
next
  assume "\<exists>u v. cs = u @ v \<and> c # u \<in> L \<and> v \<in> star L"
  then obtain u v where "cs = u @ v" "c # u \<in> L" "v \<in> star L" by blast
  then show "c # cs \<in> star L"
    using star.star_app [of "c # u" L v] by simp
qed

lemma deriv_words: "cs \<in> words (deriv c r) \<longleftrightarrow> c # cs \<in> words r"
proof (induction r arbitrary: cs)
  case (Then r s)
  show ?case
    by (auto simp: Then nullable_words Cons_eq_append_conv)
next
  case (Many r)
  show ?case
    by (auto simp: Many star_cons)
qed auto

lemma test_words: "test r s \<longleftrightarrow> s \<in> words r"
  by (induction s arbitrary: r) (simp_all add: nullable_words deriv_words)

lemma star_digits: "s \<in> star {[c] | c. isDigit c} \<longleftrightarrow> (\<forall>c \<in> set s. isDigit c)"
proof
  assume "s \<in> star {[c] | c. isDigit c}"
  then show "\<forall>c \<in> set s. isDigit c"
    by (induction rule: star.induct) auto
next
  assume "\<forall>c \<in> set s. isDigit c"
  then show "s \<in> star {[c] | c. isDigit c}"
  proof (induction s)
    case Nil
    show ?case by (rule star.star_nil)
  next
    case (Cons a s)
    then have "[a] \<in> {[c] | c. isDigit c}" and "s \<in> star {[c] | c. isDigit c}"
      by auto
    then show ?case
      using star.star_app [of "[a]" _ s] by simp
  qed
qed

lemma words_many_digit: "s \<in> words (Many (Sym Digit)) \<longleftrightarrow> (\<forall>c \<in> set s. isDigit c)"
  by (simp add: star_digits)

lemma words_many1_digit:
  "s \<in> words (Many1 (Sym Digit)) \<longleftrightarrow> s \<noteq> [] \<and> (\<forall>c \<in> set s. isDigit c)"
proof
  assume "s \<in> words (Many1 (Sym Digit))"
  then obtain u v where "s = u @ v" "u \<in> words (Sym Digit)" "v \<in> words (Many (Sym Digit))"
    unfolding Many1_def by auto
  then show "s \<noteq> [] \<and> (\<forall>c \<in> set s. isDigit c)"
    unfolding words_many_digit by auto
next
  assume a: "s \<noteq> [] \<and> (\<forall>c \<in> set s. isDigit c)"
  then obtain c v where s: "s = c # v" by (cases s) auto
  with a have "[c] \<in> words (Sym Digit)" and "v \<in> words (Many (Sym Digit))"
    unfolding words_many_digit by auto
  then have "[c] @ v \<in> words (Then (Sym Digit) (Many (Sym Digit)))"
    unfolding words.simps(4) by blast
  then show "s \<in> words (Many1 (Sym Digit))"
    by (simp add: s Many1_def)
qed

lemma test_re_integer:
  "test re_integer s \<longleftrightarrow> s \<noteq> [] \<and> (\<forall>c \<in> set s. isDigit c)"
  by (simp only: test_words re_integer_def words_many1_digit)

lemma test_re_float:
  "test re_float s \<longleftrightarrow>
     (\<exists>a b. s = a @ 0x2E # b \<and> (\<forall>c \<in> set a. isDigit c) \<and> b \<noteq> [] \<and> (\<forall>c \<in> set b. isDigit c))"
proof
  assume "test re_float s"
  then obtain a w where 1: "s = a @ w" "a \<in> words (Many (Sym Digit))"
      "w \<in> words (Then (Sym (Lit 0x2E)) (Many1 (Sym Digit)))"
    unfolding test_words re_float_def words.simps(4) by blast
  from 1(3) obtain d b where 2: "w = d @ b" "d \<in> words (Sym (Lit 0x2E))" "b \<in> words (Many1 (Sym Digit))"
    unfolding words.simps(4) by blast
  from 2(2) have "d = [0x2E]" by simp
  with 1 2 show "\<exists>a b. s = a @ 0x2E # b \<and> (\<forall>c \<in> set a. isDigit c) \<and> b \<noteq> [] \<and> (\<forall>c \<in> set b. isDigit c)"
    unfolding words_many_digit words_many1_digit by auto
next
  assume "\<exists>a b. s = a @ 0x2E # b \<and> (\<forall>c \<in> set a. isDigit c) \<and> b \<noteq> [] \<and> (\<forall>c \<in> set b. isDigit c)"
  then obtain a b where ab: "s = a @ 0x2E # b" "\<forall>c \<in> set a. isDigit c" "b \<noteq> []" "\<forall>c \<in> set b. isDigit c"
    by blast
  have "[0x2E] \<in> words (Sym (Lit 0x2E))" by simp
  moreover have "b \<in> words (Many1 (Sym Digit))"
    using ab unfolding words_many1_digit by simp
  ultimately have "[0x2E] @ b \<in> words (Then (Sym (Lit 0x2E)) (Many1 (Sym Digit)))"
    unfolding words.simps(4) by blast
  moreover have "a \<in> words (Many (Sym Digit))"
    using ab unfolding words_many_digit by simp
  ultimately have "a @ [0x2E] @ b \<in> words re_float"
    unfolding re_float_def words.simps(4) by blast
  then show "test re_float s"
    by (simp add: test_words ab)
qed

lemma digit_not_space: "isDigit c \<Longrightarrow> \<not> isWhiteSpace c"
  unfolding isDigit_def isWhiteSpace_def
  by (auto simp: word_le_def)

lemma dot_not_space: "\<not> isWhiteSpace 0x2E"
  by (simp add: isWhiteSpace_def)

lemma trim_id:
  assumes "s \<noteq> []" "\<not> isWhiteSpace (hd s)" "\<not> isWhiteSpace (last s)"
  shows "trim s = s"
proof -
  from assms have 1: "dropWhile isWhiteSpace s = s"
    by (cases s) auto
  from assms have 2: "dropWhile isWhiteSpace (rev s) = rev s"
    by (cases "rev s") (auto simp: last_rev [symmetric] hd_rev)
  show ?thesis by (simp add: trim_def 1 2)
qed

lemma trim_integer: "test re_integer s \<Longrightarrow> trim s = s"
  by (rule trim_id) (auto simp: test_re_integer intro!: digit_not_space)

lemma trim_float: "test re_float s \<Longrightarrow> trim s = s"
proof -
  assume "test re_float s"
  then obtain a b where ab: "s = a @ 0x2E # b" "\<forall>c \<in> set a. isDigit c" "b \<noteq> []" "\<forall>c \<in> set b. isDigit c"
    unfolding test_re_float by blast
  have "\<not> isWhiteSpace (hd s)"
    using ab by (cases a) (auto simp: dot_not_space digit_not_space)
  moreover have "\<not> isWhiteSpace (last s)"
    using ab by (auto intro!: digit_not_space)
  ultimately show ?thesis using ab by (intro trim_id) auto
qed

lemma int_not_float: "test re_integer s \<Longrightarrow> \<not> test re_float s"
  unfolding test_re_integer test_re_float
  by (auto simp: isDigit_def)


section \<open>Properties of the schema inferrer\<close>

text \<open>
  C1, as amended. For every string \<open>s\<close>, \<open>getDataType\<close> returns one of the three column
  types: INTEGER when \<open>s\<close> matches \<open>^\d+$\<close>, FLOAT when \<open>s\<close> matches \<open>^\d*\.\d+$\<close>, TEXT when
  \<open>s\<close> is empty or all whitespace. In general the patterns are tested on \<open>s\<close> with the
  surrounding whitespace removed: INTEGER when the trimmed string matches \<open>^\d+$\<close>,
  otherwise FLOAT when it matches \<open>^\d*\.\d+$\<close>, otherwise TEXT.
\<close>

theorem getDataType_trimmed:
  "(test re_integer s \<longrightarrow> getDataType (Some s) = sql_INT)
   \<and> (test re_float s \<longrightarrow> getDataType (Some s) = sql_FLOAT)
   \<and> (s = [] \<or> (\<forall>c \<in> set s. isWhiteSpace c) \<longrightarrow> getDataType (Some s) = sql_TEXT)
   \<and> getDataType (Some s) =
       (if test re_integer (trim s) then sql_INT
        else if test re_float (trim s) then sql_FLOAT
        else sql_TEXT)
   \<and> getDataType (Some s) \<in> {sql_INT, sql_FLOAT, sql_TEXT}"
proof -
  have blank: "trim s = []" if "s = [] \<or> (\<forall>c \<in> set s. isWhiteSpace c)"
  proof -
    from that have d: "dropWhile isWhiteSpace s = []"
      by auto
    show ?thesis unfolding trim_def d by simp
  qed
  have not_int_nil: "\<not> test re_integer []" and not_float_nil: "\<not> test re_float []"
    by (simp_all add: re_integer_def re_float_def Many1_def)
  have 1: "test re_integer s \<longrightarrow> getDataType (Some s) = sql_INT"
    using trim_integer [of s] not_int_nil by (auto simp: getDataType_def)
  have 2: "test re_float s \<longrightarrow> getDataType (Some s) = sql_FLOAT"
    using trim_float [of s] int_not_float [of s] not_float_nil by (auto simp: getDataType_def)
  have 3: "s = [] \<or> (\<forall>c \<in> set s. isWhiteSpace c) \<longrightarrow> getDataType (Some s) = sql_TEXT"
    using blank by (auto simp: getDataType_def)
  have 4: "getDataType (Some s) =
       (if test re_integer (trim s) then sql_INT
        else if test re_float (trim s) then sql_FLOAT
        else sql_TEXT)"
  proof (cases "trim s = []")
    case True
    with not_int_nil not_float_nil show ?thesis by (simp add: getDataType_def)
  next
    case False
    then have "s \<noteq> []" by (auto simp: trim_def)
    with False show ?thesis by (simp add: getDataType_def)
  qed
  have 5: "getDataType (Some s) \<in> {sql_INT, sql_FLOAT, sql_TEXT}"
    by (cases "getDataType (Some s)") simp_all
  from 1 2 3 4 5 show ?thesis by blast
qed

text \<open>
  C1, the theorem at \<open>"123"\<close>, \<open>"1.5"\<close>, a string of two spaces and \<open>"12a"\<close>.
\<close>

theorem getDataType_trimmed_witness:
  "test re_integer (js ''123'') \<and> getDataType (Some (js ''123'')) = sql_INT
   \<and> test re_float (js ''1.5'') \<and> getDataType (Some (js ''1.5'')) = sql_FLOAT
   \<and> list_all isWhiteSpace (js ''  '') \<and> getDataType (Some (js ''  '')) = sql_TEXT
   \<and> getDataType (Some (js ''12a'')) = sql_TEXT"
proof -
  have a: "test re_integer (js ''123'')"
    by (simp add: js_def re_integer_def Many1_def isDigit_def)
  have b: "test re_float (js ''1.5'')"
    by (simp add: js_def re_float_def Many1_def isDigit_def)
  have c: "\<forall>c \<in> set (js ''  ''). isWhiteSpace c"
    by (simp add: js_def isWhiteSpace_def)
  have d: "\<not> test re_integer (trim (js ''12a''))" "\<not> test re_float (trim (js ''12a''))"
    by (simp_all add: js_def trim_def isWhiteSpace_def re_integer_def re_float_def Many1_def isDigit_def)
  have c': "list_all isWhiteSpace (js ''  '')"
    using c by (simp only: list_all_iff)
  from a b c c' d getDataType_trimmed [of "js ''123''"] getDataType_trimmed [of "js ''1.5''"]
    getDataType_trimmed [of "js ''  ''"] getDataType_trimmed [of "js ''12a''"]
  show ?thesis by presburger
qed

text \<open>
  C1 as stated fails at \<open>" 123 "\<close>: the string matches neither pattern and is neither
  empty nor all whitespace, so the claim gives TEXT, and \<open>getDataType\<close> returns INTEGER.
\<close>

theorem getDataType_untrimmed_counterexample:
  "\<not> test re_integer (js '' 123 '') \<and> \<not> test re_float (js '' 123 '')
   \<and> js '' 123 '' \<noteq> [] \<and> \<not> list_all isWhiteSpace (js '' 123 '')
   \<and> getDataType (Some (js '' 123 '')) = sql_INT \<and> sql_INT \<noteq> sql_TEXT"
  by (simp add: js_def getDataType_def trim_def isWhiteSpace_def re_integer_def re_float_def
      Many1_def isDigit_def)


section \<open>The client call\<close>

lemma run_issued: "issued (snd (run cfg now q ps d)) = issued d"
  by (auto simp: run_def bad_arguments_def no_table_def
      split: stmt.splits list.splits param.splits option.splits)

lemma execute_issued: "issued (snd (execute cfg now q ps d)) = issued d @ [(q, ps)]"
  by (auto simp: execute_def Let_def run_issued split: option.splits)

lemma execute_undefined:
  "PUndefined \<in> set ps \<Longrightarrow>
   execute cfg now q ps d =
     (Inl (TypeError ''Bind parameters must not contain undefined. To pass SQL NULL specify JS null''),
      d\<lparr>issued := issued d @ [(q, ps)]\<rparr>)"
  by (simp add: execute_def Let_def)

lemma execute_select:
  "refusal cfg SelectApiKey [PStr k, PStr n] = None \<Longrightarrow>
   execute cfg now SelectApiKey [PStr k, PStr n] d =
     (Inr (RowsOf (filter (\<lambda>r. collate cfg (api_key r) = collate cfg k \<and> is_active r
                               \<and> collate cfg (app_name r) = collate cfg n) (api_keys d))),
      d\<lparr>issued := issued d @ [(SelectApiKey, [PStr k, PStr n])]\<rparr>)"
  by (simp add: execute_def Let_def run_def sql_eq_def)

lemma execute_update:
  "refusal cfg UpdateLastUsed [PStr k, PStr n] = None \<Longrightarrow>
   execute cfg now UpdateLastUsed [PStr k, PStr n] d =
     (Inr OkPacket,
      d\<lparr>issued := issued d @ [(UpdateLastUsed, [PStr k, PStr n])],
        api_keys := map (\<lambda>r. if collate cfg (api_key r) = collate cfg k
                                  \<and> collate cfg (app_name r) = collate cfg n
                               then r\<lparr>last_used := Some now\<rparr> else r) (api_keys d)\<rparr>)"
  by (simp add: execute_def Let_def run_def sql_eq_def)

lemma execute_refused:
  "refusal cfg q ps = Some e \<Longrightarrow> PUndefined \<notin> set ps \<Longrightarrow>
   execute cfg now q ps d = (Inl e, d\<lparr>issued := issued d @ [(q, ps)]\<rparr>)"
  by (simp add: execute_def Let_def)

lemma execute_Inr_no_undefined:
  "execute cfg now q ps d = (Inr res, d1) \<Longrightarrow> PUndefined \<notin> set ps \<and> refusal cfg q ps = None"
  by (auto simp: execute_def Let_def split: if_splits option.splits)


section \<open>The gate, case by case\<close>

lemma verifyApiKey_thrown:
  assumes "claimed_name req = Inl e"
  shows "verifyApiKey cfg now req d = (Throws e, d)"
  using assms by (simp add: verifyApiKey_def Let_def)

lemma claimed_name_thrown:
  "claimed_name req = Inl e \<longleftrightarrow>
     \<not> truthy (header_app_name req) \<and> \<not> truthy (query_app_name req) \<and> body req = None
     \<and> e = TypeError ''Cannot read properties of undefined (reading app_name)''"
  by (auto simp: claimed_name_def split: option.splits)

lemma verifyApiKey_named:
  assumes key: "presented_key req = Some k" "k \<noteq> []"
      and name: "claimed_name req = Inr (Some n)"
      and sel: "refusal cfg SelectApiKey [PStr k, PStr n] = None"
  shows "verifyApiKey cfg now req d =
     (case filter (matching cfg k n) (api_keys d) of
        [] \<Rightarrow> (Respond (401, error_body ''Invalid API key''),
               d\<lparr>issued := issued d @ [(SelectApiKey, [PStr k, PStr n])]\<rparr>)
      | row # others \<Rightarrow>
          (case refusal cfg UpdateLastUsed [PStr k, PStr n] of
             Some e \<Rightarrow> (Respond (500, error_body ''Failed to authenticate API key''),
                        d\<lparr>issued := issued d @ [(SelectApiKey, [PStr k, PStr n]),
                                                (UpdateLastUsed, [PStr k, PStr n])]\<rparr>)
           | None \<Rightarrow> (Next row,
                      d\<lparr>issued := issued d @ [(SelectApiKey, [PStr k, PStr n]),
                                              (UpdateLastUsed, [PStr k, PStr n])],
                        api_keys := map (touch cfg now k n) (api_keys d)\<rparr>)))"
proof -
  have m: "(\<lambda>r. collate cfg (api_key r) = collate cfg k \<and> is_active r
                \<and> collate cfg (app_name r) = collate cfg n) = matching cfg k n"
    by (simp add: matching_def fun_eq_iff)
  have t: "(\<lambda>r. if collate cfg (api_key r) = collate cfg k
                     \<and> collate cfg (app_name r) = collate cfg n
                  then r\<lparr>last_used := Some now\<rparr> else r) = touch cfg now k n"
    by (simp add: touch_def fun_eq_iff)
  have tp: "to_param (Some k) = PStr k" "to_param (Some n) = PStr n"
    by (simp_all add: to_param_def)
  have head: "verifyApiKey cfg now req d =
     (case execute cfg now SelectApiKey [PStr k, PStr n] d of
             (Inl e, d1) \<Rightarrow> (Respond (500, error_body ''Failed to authenticate API key''), d1)
           | (Inr (RowsOf []), d1) \<Rightarrow> (Respond (401, error_body ''Invalid API key''), d1)
           | (Inr (RowsOf (row # others)), d1) \<Rightarrow>
               (case execute cfg now UpdateLastUsed [PStr k, PStr n] d1 of
                  (Inl e, d2) \<Rightarrow> (Respond (500, error_body ''Failed to authenticate API key''), d2)
                | (Inr ok, d2) \<Rightarrow> (Next row, d2))
           | (Inr other, d1) \<Rightarrow> (Respond (500, error_body ''Failed to authenticate API key''), d1))"
    unfolding verifyApiKey_def Let_def key(1) name sum.case tp by (simp add: truthy_def key(2))
  show ?thesis
  proof (cases "filter (matching cfg k n) (api_keys d)")
    case Nil
    then show ?thesis
      by (simp add: head execute_select [OF sel] m)
  next
    case (Cons row others)
    show ?thesis
    proof (cases "refusal cfg UpdateLastUsed [PStr k, PStr n]")
      case None
      then show ?thesis
        by (simp add: head execute_select [OF sel] m Cons execute_update [OF None] t)
    next
      case (Some e)
      then show ?thesis
        by (simp add: head execute_select [OF sel] m Cons execute_refused [OF Some])
    qed
  qed
qed

lemma verifyApiKey_unnamed:
  assumes key: "presented_key req = Some k" "k \<noteq> []"
      and name: "claimed_name req = Inr None"
  shows "verifyApiKey cfg now req d =
     (Respond (500, error_body ''Failed to authenticate API key''),
      d\<lparr>issued := issued d @ [(SelectApiKey, [PStr k, PUndefined])]\<rparr>)"
  using key name
  by (simp add: verifyApiKey_def Let_def truthy_def to_param_def execute_undefined)

lemma verifyApiKey_refused:
  assumes key: "presented_key req = Some k" "k \<noteq> []"
      and name: "claimed_name req = Inr n"
      and sel: "refusal cfg SelectApiKey [PStr k, to_param n] = Some e"
  shows "fst (verifyApiKey cfg now req d) = Respond (500, error_body ''Failed to authenticate API key'')"
proof -
  have tp: "to_param (Some k) = PStr k"
    by (simp add: to_param_def)
  have "fst (execute cfg now SelectApiKey [PStr k, to_param n] d) = Inl e
        \<or> (\<exists>m. fst (execute cfg now SelectApiKey [PStr k, to_param n] d) = Inl (TypeError m))"
    using sel by (simp add: execute_def Let_def)
  then obtain e' d1 where "execute cfg now SelectApiKey [PStr k, to_param n] d = (Inl e', d1)"
    by (metis prod.collapse)
  then show ?thesis
    unfolding verifyApiKey_def Let_def key(1) name sum.case tp
    by (simp add: truthy_def key(2))
qed

lemma verifyApiKey_keyless:
  assumes "\<not> truthy (presented_key req)" and "claimed_name req = Inr n"
  shows "verifyApiKey cfg now req d = (Respond (401, error_body ''API key is required''), d)"
  using assms by (simp add: verifyApiKey_def Let_def)

lemma verifyApiKey_keyless_store:
  assumes "\<not> truthy (presented_key req)"
  shows "snd (verifyApiKey cfg now req d) = d \<and> (\<forall>row. fst (verifyApiKey cfg now req d) \<noteq> Next row)"
proof (cases "claimed_name req")
  case (Inl e)
  then show ?thesis by (simp add: verifyApiKey_thrown)
next
  case (Inr n)
  with assms show ?thesis by (simp add: verifyApiKey_keyless)
qed

lemma verifyApiKey_Next:
  assumes "verifyApiKey cfg now req d = (Next row, d')"
  obtains k n others where
    "presented_key req = Some k" "k \<noteq> []" "claimed_name req = Inr (Some n)"
    "filter (matching cfg k n) (api_keys d) = row # others"
    "d' = d\<lparr>issued := issued d @ [(SelectApiKey, [PStr k, PStr n]),
                                    (UpdateLastUsed, [PStr k, PStr n])],
            api_keys := map (touch cfg now k n) (api_keys d)\<rparr>"
proof -
  from assms obtain v where v: "claimed_name req = Inr v"
    using verifyApiKey_thrown [of req _ cfg now d] by (cases "claimed_name req") auto
  have t: "truthy (presented_key req)"
    using assms verifyApiKey_keyless [OF _ v, of cfg now d] by auto
  then obtain k where k: "presented_key req = Some k" "k \<noteq> []"
    by (auto simp: truthy_def split: option.splits)
  have "v \<noteq> None"
    using assms verifyApiKey_unnamed [OF k, of cfg now d] v by auto
  then obtain n where n: "claimed_name req = Inr (Some n)" using v by auto
  have sel: "refusal cfg SelectApiKey [PStr k, PStr n] = None"
  proof (cases "refusal cfg SelectApiKey [PStr k, PStr n]")
    case (Some e)
    then have "refusal cfg SelectApiKey [PStr k, to_param (Some n)] = Some e"
      by (simp add: to_param_def)
    from verifyApiKey_refused [OF k n this, of now d] assms show ?thesis by simp
  qed simp
  note eq = verifyApiKey_named [OF k n sel, of now d]
  from assms eq obtain others where
    f: "filter (matching cfg k n) (api_keys d) = row # others"
    by (auto split: list.splits option.splits)
  from assms eq f have
    "d' = d\<lparr>issued := issued d @ [(SelectApiKey, [PStr k, PStr n]),
                                    (UpdateLastUsed, [PStr k, PStr n])],
            api_keys := map (touch cfg now k n) (api_keys d)\<rparr>"
    by (auto split: option.splits)
  with k n f show ?thesis by (rule that)
qed

lemma filter_hd_mem:
  assumes "filter P xs = x # ys"
  shows "x \<in> set xs \<and> P x"
proof -
  have "x \<in> set (filter P xs)" by (simp add: assms)
  then show ?thesis by simp
qed

lemma stamp_le_refl: "stamp_le t t"
  by (cases t) simp_all

lemma stamps_touch:
  assumes "\<forall>r \<in> set rs. stamp_le (last_used r) (Some now)"
  shows "list_all2 (\<lambda>a b. stamp_le (last_used a) (last_used b)) rs (map (touch cfg now k n) rs)"
  using assms
proof (induction rs)
  case Nil
  show ?case by simp
next
  case (Cons r rs)
  then show ?case by (simp add: touch_def stamp_le_refl)
qed

lemma stamps_touched:
  assumes "\<forall>r \<in> set rs. stamp_le (last_used r) (Some now)"
  shows "\<forall>r \<in> set (map (touch cfg now k n) rs). stamp_le (last_used r) (Some now)"
  using assms by (auto simp: touch_def)


section \<open>Properties of the auth gate\<close>

text \<open>
  C4, as amended. For a request carrying an API key, when the server carries out the
  lookup and the timestamp update, the gate calls \<open>next()\<close> if and only if the credential
  store holds an active record whose key and application name equal the presented key
  and the claimed name under the collation of the \<open>api_keys\<close> columns; under a binary
  collation that is an exact, case-sensitive match. A lookup that finds no such record
  is answered 401 with one and the same body whatever the reason, and on success the
  record attached to the request is a record of the store that matches.
\<close>

theorem gate_passes_iff_match:
  assumes key: "presented_key req = Some k" "k \<noteq> []"
      and sel: "\<forall>v. claimed_name req = Inr v \<longrightarrow>
                  refusal cfg SelectApiKey [PStr k, to_param v] = None"
      and upd: "\<forall>v. claimed_name req = Inr v \<longrightarrow>
                  refusal cfg UpdateLastUsed [PStr k, to_param v] = None"
  shows "((\<exists>row. fst (verifyApiKey cfg now req d) = Next row) \<longleftrightarrow>
           (\<exists>n. claimed_name req = Inr (Some n) \<and> (\<exists>r \<in> set (api_keys d). matching cfg k n r)))
       \<and> (\<forall>n. claimed_name req = Inr (Some n) \<and> \<not> (\<exists>r \<in> set (api_keys d). matching cfg k n r) \<longrightarrow>
              fst (verifyApiKey cfg now req d) = Respond (401, error_body ''Invalid API key''))
       \<and> (\<forall>row. fst (verifyApiKey cfg now req d) = Next row \<longrightarrow>
              row \<in> set (api_keys d) \<and> (\<exists>n. claimed_name req = Inr (Some n) \<and> matching cfg k n row))
       \<and> (collate cfg = (\<lambda>s. s) \<longrightarrow>
            ((\<exists>row. fst (verifyApiKey cfg now req d) = Next row) \<longleftrightarrow>
             (\<exists>n. claimed_name req = Inr (Some n) \<and>
                  (\<exists>r \<in> set (api_keys d). api_key r = k \<and> app_name r = n \<and> is_active r))))"
proof (cases "claimed_name req")
  case (Inl e)
  from verifyApiKey_thrown [OF Inl, of cfg now d] Inl show ?thesis by simp
next
  case (Inr v)
  show ?thesis
  proof (cases v)
    case None
    from verifyApiKey_unnamed [OF key Inr [unfolded None], of cfg now d] Inr None
    show ?thesis by simp
  next
    case (Some n)
    note name = Inr [unfolded Some]
    from sel upd Inr have s: "refusal cfg SelectApiKey [PStr k, PStr n] = None"
      and u: "refusal cfg UpdateLastUsed [PStr k, PStr n] = None"
      by (simp_all add: Some to_param_def)
    note eq = verifyApiKey_named [OF key name s, of now d]
    show ?thesis
    proof (cases "filter (matching cfg k n) (api_keys d)")
      case Nil
      then have no: "\<not> (\<exists>r \<in> set (api_keys d). matching cfg k n r)"
        by (simp add: filter_empty_conv)
      have bin: "collate cfg = (\<lambda>s. s) \<Longrightarrow>
          \<not> (\<exists>r \<in> set (api_keys d). api_key r = k \<and> app_name r = n \<and> is_active r)"
        using no by (auto simp: matching_def)
      from eq Nil no bin name show ?thesis by auto
    next
      case (Cons row others)
      from filter_hd_mem [OF Cons] have yes: "row \<in> set (api_keys d)" "matching cfg k n row"
        by simp_all
      have bin: "collate cfg = (\<lambda>s. s) \<Longrightarrow>
          (\<exists>r \<in> set (api_keys d). api_key r = k \<and> app_name r = n \<and> is_active r)"
        using yes by (auto simp: matching_def)
      from eq Cons u have "fst (verifyApiKey cfg now req d) = Next row" by simp
      with yes bin name show ?thesis by auto
    qed
  qed
qed

text \<open>
  C4, the theorem on a store with one active key, a request presenting that key and its
  application name, and a server with a binary collation.
\<close>

theorem gate_passes_iff_match_witness:
  "presented_key sample_request = Some sample_key \<and> sample_key \<noteq> []
   \<and> claimed_name sample_request = Inr (Some (js ''app1''))
   \<and> refusal binary_server SelectApiKey [PStr sample_key, to_param (Some (js ''app1''))] = None
   \<and> refusal binary_server UpdateLastUsed [PStr sample_key, to_param (Some (js ''app1''))] = None
   \<and> sample_row \<in> set (api_keys sample_db) \<and> matching binary_server sample_key (js ''app1'') sample_row
   \<and> collate binary_server = (\<lambda>s. s)
   \<and> (\<exists>row. fst (verifyApiKey binary_server 20 sample_request sample_db) = Next row)"
proof -
  have k: "presented_key sample_request = Some sample_key" "sample_key \<noteq> []"
    by (simp_all add: sample_key_def sample_request_def js_def presented_key_def or_else_def
        truthy_def)
  have n: "claimed_name sample_request = Inr (Some (js ''app1''))"
    by (simp add: sample_request_def js_def claimed_name_def truthy_def)
  have r: "refusal binary_server SelectApiKey [PStr sample_key, to_param (Some (js ''app1''))] = None"
    "refusal binary_server UpdateLastUsed [PStr sample_key, to_param (Some (js ''app1''))] = None"
    by (simp_all add: binary_server_def)
  have r': "\<forall>v. claimed_name sample_request = Inr v \<longrightarrow>
                  refusal binary_server SelectApiKey [PStr sample_key, to_param v] = None"
    "\<forall>v. claimed_name sample_request = Inr v \<longrightarrow>
                  refusal binary_server UpdateLastUsed [PStr sample_key, to_param v] = None"
    by (simp_all add: binary_server_def)
  have m: "sample_row \<in> set (api_keys sample_db)" "matching binary_server sample_key (js ''app1'') sample_row"
    by (simp_all add: sample_key_def sample_row_def sample_db_def matching_def binary_server_def)
  have c: "collate binary_server = (\<lambda>s. s)"
    by (simp add: binary_server_def)
  from gate_passes_iff_match [OF k r', of 20 sample_db] n m
  have "\<exists>row. fst (verifyApiKey binary_server 20 sample_request sample_db) = Next row"
    by blast
  with k r n m c show ?thesis by blast
qed

text \<open>
  C4 as stated fails on a server whose collation folds case: the store holds the name
  \<open>app1\<close> only, the request claims \<open>APP1\<close>, and the gate admits it.
\<close>

theorem folded_name_admitted_counterexample:
  "api_keys sample_db = [sample_row]
   \<and> app_name sample_row \<noteq> js ''APP1''
   \<and> presented_key (sample_request\<lparr>header_app_name := Some (js ''APP1'')\<rparr>) = Some sample_key
   \<and> claimed_name (sample_request\<lparr>header_app_name := Some (js ''APP1'')\<rparr>) = Inr (Some (js ''APP1''))
   \<and> fst (verifyApiKey ci_server 20 (sample_request\<lparr>header_app_name := Some (js ''APP1'')\<rparr>) sample_db)
       = Next sample_row"
  by (simp add: sample_key_def sample_row_def sample_db_def sample_request_def js_def
      verifyApiKey_def execute_def run_def sql_eq_def or_else_def truthy_def
      to_param_def Let_def presented_key_def claimed_name_def error_body_def ci_server_def lower_def)

text \<open>
  C5, where the code departs from the claim. A request with no API key, no application
  name in the header or the query, and no parsed body (\<open>req.body\<close> is \<open>undefined\<close>) is not
  answered 401: line 169 reads \<open>req.body.app_name\<close> before the key is checked on line 171
  and outside the \<open>try\<close> block, so \<open>verifyApiKey\<close> throws. The store is left as it was.
\<close>

theorem keyless_unparsed_body_throws:
  "presented_key bare_request = None
   \<and> verifyApiKey binary_server 20 bare_request sample_db =
       (Throws (TypeError ''Cannot read properties of undefined (reading app_name)''), sample_db)"
  by (simp add: bare_request_def verifyApiKey_def presented_key_def claimed_name_def or_else_def
      truthy_def Let_def)

text \<open>
  What the gate does for the other requests without a key, those whose application
  name can be read (a name in the header or the query, or a parsed body): 401, and the
  store, with the list of issued statements, is left as it was. No request without a
  key is admitted or reaches the store.
\<close>

lemma no_key_no_lookup:
  assumes "\<not> truthy (header_x_api_key req)" and "\<not> truthy (query_api_key req)"
  shows "(truthy (header_app_name req) \<or> truthy (query_app_name req) \<or> body req \<noteq> None \<longrightarrow>
            verifyApiKey cfg now req d = (Respond (401, error_body ''API key is required''), d))
       \<and> snd (verifyApiKey cfg now req d) = d
       \<and> (\<forall>row. fst (verifyApiKey cfg now req d) \<noteq> Next row)"
proof -
  from assms have k: "\<not> truthy (presented_key req)"
    by (simp add: presented_key_def or_else_def)
  have "verifyApiKey cfg now req d = (Respond (401, error_body ''API key is required''), d)"
    if "truthy (header_app_name req) \<or> truthy (query_app_name req) \<or> body req \<noteq> None"
  proof -
    from that have "\<forall>e. claimed_name req \<noteq> Inl e"
      by (auto simp: claimed_name_thrown)
    then obtain v where "claimed_name req = Inr v"
      by (cases "claimed_name req") auto
    from verifyApiKey_keyless [OF k this] show ?thesis .
  qed
  with verifyApiKey_keyless_store [OF k, of cfg now d] show ?thesis by blast
qed

text \<open>
  C6, as amended. When the gate calls \<open>next()\<close>, the record it matched has \<open>last_used\<close>
  set to the current time in the store the protected handler then runs on: the update
  is the second and last statement the gate issues, and every handler behind the gate
  starts from the updated store. The new value is at least the old one when no stored
  timestamp lies after the current time (the clock has not gone back since it was
  written): then no record's \<open>last_used\<close> decreases, and the same bound holds again
  afterwards.
\<close>

theorem success_updates_last_used:
  assumes "verifyApiKey cfg now req d = (Next row, d')"
  shows "\<exists>k n. presented_key req = Some k \<and> claimed_name req = Inr (Some n)
           \<and> row \<in> set (api_keys d) \<and> matching cfg k n row
           \<and> api_keys d' = map (touch cfg now k n) (api_keys d)
           \<and> touch cfg now k n row = row\<lparr>last_used := Some now\<rparr>
           \<and> row\<lparr>last_used := Some now\<rparr> \<in> set (api_keys d')
           \<and> issued d' = issued d @ [(SelectApiKey, [PStr k, PStr n]),
                                      (UpdateLastUsed, [PStr k, PStr n])]
           \<and> (\<forall>handler. protected handler cfg now req d =
                  (Inr (fst (handler cfg now row d')), snd (handler cfg now row d')))
           \<and> ((\<forall>r \<in> set (api_keys d). stamp_le (last_used r) (Some now)) \<longrightarrow>
                list_all2 (\<lambda>a b. stamp_le (last_used a) (last_used b)) (api_keys d) (api_keys d')
                \<and> (\<forall>r \<in> set (api_keys d'). stamp_le (last_used r) (Some now)))"
proof -
  from assms obtain k n others where
    k: "presented_key req = Some k" "k \<noteq> []" and n: "claimed_name req = Inr (Some n)"
    and f: "filter (matching cfg k n) (api_keys d) = row # others"
    and d': "d' = d\<lparr>issued := issued d @ [(SelectApiKey, [PStr k, PStr n]),
                                          (UpdateLastUsed, [PStr k, PStr n])],
                   api_keys := map (touch cfg now k n) (api_keys d)\<rparr>"
    by (rule verifyApiKey_Next)
  from filter_hd_mem [OF f] have mem: "row \<in> set (api_keys d)" and m: "matching cfg k n row"
    by simp_all
  have t: "touch cfg now k n row = row\<lparr>last_used := Some now\<rparr>"
    using m by (simp add: touch_def matching_def)
  have mem': "row\<lparr>last_used := Some now\<rparr> \<in> set (api_keys d')"
    using mem t by (auto simp: d' image_iff intro!: bexI [of _ row])
  have p: "\<forall>handler. protected handler cfg now req d =
      (Inr (fst (handler cfg now row d')), snd (handler cfg now row d'))"
    by (simp add: protected_def assms split: prod.splits)
  have s: "(\<forall>r \<in> set (api_keys d). stamp_le (last_used r) (Some now)) \<longrightarrow>
      list_all2 (\<lambda>a b. stamp_le (last_used a) (last_used b)) (api_keys d) (api_keys d')
      \<and> (\<forall>r \<in> set (api_keys d'). stamp_le (last_used r) (Some now))"
    using stamps_touch [of "api_keys d" now cfg k n] stamps_touched [of "api_keys d" now cfg k n]
    by (simp add: d')
  have i: "issued d' = issued d @ [(SelectApiKey, [PStr k, PStr n]),
                                      (UpdateLastUsed, [PStr k, PStr n])]"
    and a: "api_keys d' = map (touch cfg now k n) (api_keys d)"
    by (simp_all add: d')
  from k n mem m a t mem' i p s show ?thesis by blast
qed

text \<open>
  C6, the theorem on the sample store, whose record was last used at 15, at time 20.
\<close>

theorem success_updates_last_used_witness:
  "verifyApiKey binary_server 20 sample_request sample_db =
     (Next sample_row,
      \<lparr>api_keys = [sample_row\<lparr>last_used := Some 20\<rparr>], KEV_Catalog = None,
       issued = [(SelectApiKey, [PStr sample_key, PStr (js ''app1'')]),
                 (UpdateLastUsed, [PStr sample_key, PStr (js ''app1'')])]\<rparr>)
   \<and> last_used sample_row = Some 15
   \<and> list_all (\<lambda>r. stamp_le (last_used r) (Some 20)) (api_keys sample_db)
   \<and> list_all2 (\<lambda>a b. stamp_le (last_used a) (last_used b))
        (api_keys sample_db) [sample_row\<lparr>last_used := Some 20\<rparr>]"
proof -
  have v: "verifyApiKey binary_server 20 sample_request sample_db =
     (Next sample_row,
      \<lparr>api_keys = [sample_row\<lparr>last_used := Some 20\<rparr>], KEV_Catalog = None,
       issued = [(SelectApiKey, [PStr sample_key, PStr (js ''app1'')]),
                 (UpdateLastUsed, [PStr sample_key, PStr (js ''app1'')])]\<rparr>)"
    by (simp add: sample_key_def sample_row_def sample_db_def sample_request_def js_def
        verifyApiKey_def execute_def run_def sql_eq_def or_else_def truthy_def
        to_param_def Let_def presented_key_def claimed_name_def error_body_def binary_server_def)
  have l: "last_used sample_row = Some 15"
    by (simp add: sample_row_def)
  have s: "list_all (\<lambda>r. stamp_le (last_used r) (Some 20)) (api_keys sample_db)"
    by (simp add: sample_db_def sample_row_def)
  from s have s': "\<forall>r \<in> set (api_keys sample_db). stamp_le (last_used r) (Some 20)"
    by (simp only: list_all_iff)
  from success_updates_last_used [OF v] s'
  have "list_all2 (\<lambda>a b. stamp_le (last_used a) (last_used b))
        (api_keys sample_db) [sample_row\<lparr>last_used := Some 20\<rparr>]"
    by auto
  with v l s show ?thesis by blast
qed

text \<open>
  C6 as stated fails when the clock reads less than a stored timestamp: the sample
  record was last used at 15, the request is authenticated at time 10, and \<open>last_used\<close>
  becomes 10.
\<close>

theorem clock_back_counterexample:
  "last_used sample_row = Some 15
   \<and> verifyApiKey binary_server 10 sample_request sample_db =
     (Next sample_row,
      \<lparr>api_keys = [sample_row\<lparr>last_used := Some 10\<rparr>], KEV_Catalog = None,
       issued = [(SelectApiKey, [PStr sample_key, PStr (js ''app1'')]),
                 (UpdateLastUsed, [PStr sample_key, PStr (js ''app1'')])]\<rparr>)
   \<and> \<not> stamp_le (last_used sample_row) (last_used (sample_row\<lparr>last_used := Some 10\<rparr>))"
  by (simp add: sample_key_def sample_row_def sample_db_def sample_request_def js_def
      verifyApiKey_def execute_def run_def sql_eq_def or_else_def truthy_def
      to_param_def Let_def presented_key_def claimed_name_def error_body_def binary_server_def)

text \<open>
  C10, as amended. A request that presents an API key, whose \<open>app-name\<close> header and
  \<open>app_name\<close> query parameter are absent or empty and whose parsed body has no
  \<open>app_name\<close> field, is never admitted: the lookup is issued with \<open>undefined\<close> as the name
  parameter, the client rejects it, and the gate answers 500, not 401; a handler behind
  the gate does not run. When the body's \<open>app_name\<close> is the empty string instead, the
  lookup is issued with the empty name, and a lookup that finds no record is answered
  401.
\<close>

theorem unnamed_request_rejected_500:
  assumes key: "presented_key req = Some k" "k \<noteq> []"
      and name: "\<not> truthy (header_app_name req)" "\<not> truthy (query_app_name req)"
  shows "(body req = Some None \<longrightarrow>
            verifyApiKey cfg now req d =
              (Respond (500, error_body ''Failed to authenticate API key''),
               d\<lparr>issued := issued d @ [(SelectApiKey, [PStr k, PUndefined])]\<rparr>)
            \<and> protected handler cfg now req d =
              (Inr (500, error_body ''Failed to authenticate API key''),
               d\<lparr>issued := issued d @ [(SelectApiKey, [PStr k, PUndefined])]\<rparr>))
       \<and> (body req = Some (Some []) \<and> refusal cfg SelectApiKey [PStr k, PStr []] = None
            \<and> \<not> (\<exists>r \<in> set (api_keys d). matching cfg k [] r) \<longrightarrow>
            verifyApiKey cfg now req d =
              (Respond (401, error_body ''Invalid API key''),
               d\<lparr>issued := issued d @ [(SelectApiKey, [PStr k, PStr []])]\<rparr>))"
proof -
  have 1: "verifyApiKey cfg now req d =
              (Respond (500, error_body ''Failed to authenticate API key''),
               d\<lparr>issued := issued d @ [(SelectApiKey, [PStr k, PUndefined])]\<rparr>)
            \<and> protected handler cfg now req d =
              (Inr (500, error_body ''Failed to authenticate API key''),
               d\<lparr>issued := issued d @ [(SelectApiKey, [PStr k, PUndefined])]\<rparr>)"
    if "body req = Some None"
  proof -
    from name that have "claimed_name req = Inr None"
      by (simp add: claimed_name_def)
    from verifyApiKey_unnamed [OF key this] show ?thesis
      by (simp add: protected_def)
  qed
  have 2: "verifyApiKey cfg now req d =
              (Respond (401, error_body ''Invalid API key''),
               d\<lparr>issued := issued d @ [(SelectApiKey, [PStr k, PStr []])]\<rparr>)"
    if "body req = Some (Some [])" "refusal cfg SelectApiKey [PStr k, PStr []] = None"
      "\<not> (\<exists>r \<in> set (api_keys d). matching cfg k [] r)"
  proof -
    from name that(1) have n: "claimed_name req = Inr (Some [])"
      by (simp add: claimed_name_def)
    from that(3) have "filter (matching cfg k []) (api_keys d) = []"
      by (simp add: filter_empty_conv)
    with verifyApiKey_named [OF key n that(2), of now d] show ?thesis by simp
  qed
  from 1 2 show ?thesis by blast
qed

text \<open>
  C10, the theorem on the sample request with its application name removed, and on the
  request whose body carries an empty \<open>app_name\<close>.
\<close>

theorem unnamed_request_rejected_500_witness:
  "presented_key (sample_request\<lparr>header_app_name := None\<rparr>) = Some sample_key \<and> sample_key \<noteq> []
   \<and> \<not> truthy (header_app_name (sample_request\<lparr>header_app_name := None\<rparr>))
   \<and> \<not> truthy (query_app_name (sample_request\<lparr>header_app_name := None\<rparr>))
   \<and> body (sample_request\<lparr>header_app_name := None\<rparr>) = Some None
   \<and> fst (verifyApiKey binary_server 20 (sample_request\<lparr>header_app_name := None\<rparr>) sample_db)
       = Respond (500, error_body ''Failed to authenticate API key'')
   \<and> presented_key empty_name_request = Some sample_key
   \<and> \<not> truthy (header_app_name empty_name_request)
   \<and> \<not> truthy (query_app_name empty_name_request)
   \<and> body empty_name_request = Some (Some [])
   \<and> refusal binary_server SelectApiKey [PStr sample_key, PStr []] = None
   \<and> \<not> list_ex (matching binary_server sample_key []) (api_keys sample_db)
   \<and> fst (verifyApiKey binary_server 20 empty_name_request sample_db)
       = Respond (401, error_body ''Invalid API key'')"
proof -
  let ?req = "sample_request\<lparr>header_app_name := None\<rparr>"
  have k: "presented_key ?req = Some sample_key" "sample_key \<noteq> []"
    by (simp_all add: sample_key_def sample_request_def js_def presented_key_def or_else_def
        truthy_def)
  have n: "\<not> truthy (header_app_name ?req)" "\<not> truthy (query_app_name ?req)"
    by (simp_all add: sample_request_def truthy_def)
  have b: "body ?req = Some None"
    by (simp add: sample_request_def)
  from unnamed_request_rejected_500 [OF k n, of binary_server 20 sample_db] b
  have 1: "fst (verifyApiKey binary_server 20 ?req sample_db)
       = Respond (500, error_body ''Failed to authenticate API key'')"
    by simp
  have k': "presented_key empty_name_request = Some sample_key"
    by (simp add: empty_name_request_def sample_key_def js_def presented_key_def or_else_def
        truthy_def)
  have n': "\<not> truthy (header_app_name empty_name_request)"
    "\<not> truthy (query_app_name empty_name_request)"
    by (simp_all add: empty_name_request_def truthy_def)
  have b': "body empty_name_request = Some (Some [])"
    by (simp add: empty_name_request_def)
  have r': "refusal binary_server SelectApiKey [PStr sample_key, PStr []] = None"
    by (simp add: binary_server_def)
  have m': "\<not> list_ex (matching binary_server sample_key []) (api_keys sample_db)"
    by (simp add: sample_db_def sample_row_def matching_def binary_server_def js_def)
  then have m'': "\<not> (\<exists>r \<in> set (api_keys sample_db). matching binary_server sample_key [] r)"
    unfolding list_ex_iff by blast
  from unnamed_request_rejected_500 [OF k' k(2) n', of binary_server 20 sample_db] b' r' m''
  have "verifyApiKey binary_server 20 empty_name_request sample_db =
      (Respond (401, error_body ''Invalid API key''),
       sample_db\<lparr>issued := issued sample_db @ [(SelectApiKey, [PStr sample_key, PStr []])]\<rparr>)"
    by blast
  then have 2: "fst (verifyApiKey binary_server 20 empty_name_request sample_db)
       = Respond (401, error_body ''Invalid API key'')"
    by simp
  from k n b 1 k' n' b' r' m' 2 show ?thesis by blast
qed

text \<open>
  C10 as stated fails on a request that presents the sample key and names no
  application, in two ways. With the body \<open>{"app_name": ""}\<close> the lookup is issued with the
  empty name, not with \<open>undefined\<close>, and the answer is 401. With no parsed body the gate
  throws on line 169: no lookup is issued and nothing is caught.
\<close>

theorem unnamed_request_not_500_counterexample:
  "presented_key empty_name_request = Some sample_key
   \<and> header_app_name empty_name_request = None \<and> query_app_name empty_name_request = None
   \<and> body empty_name_request = Some (Some [])
   \<and> verifyApiKey binary_server 20 empty_name_request sample_db =
       (Respond (401, error_body ''Invalid API key''),
        \<lparr>api_keys = [sample_row], KEV_Catalog = None,
         issued = [(SelectApiKey, [PStr sample_key, PStr []])]\<rparr>)
   \<and> presented_key unparsed_request = Some sample_key
   \<and> header_app_name unparsed_request = None \<and> query_app_name unparsed_request = None
   \<and> body unparsed_request = None
   \<and> verifyApiKey binary_server 20 unparsed_request sample_db =
       (Throws (TypeError ''Cannot read properties of undefined (reading app_name)''), sample_db)"
  by (simp add: empty_name_request_def unparsed_request_def sample_key_def sample_row_def
      sample_db_def js_def verifyApiKey_def execute_def run_def sql_eq_def or_else_def truthy_def
      to_param_def Let_def presented_key_def claimed_name_def error_body_def binary_server_def)


section \<open>Properties of key issuance\<close>

lemma hex_digit_lower: "n < 16 \<Longrightarrow> is_lower_hex (hex_digit n)"
proof -
  assume "n < 16"
  then have "n \<in> {0, 1, 2, 3, 4, 5, 6, 7, 8, 9, 10, 11, 12, 13, 14, 15}"
    by simp arith
  then show ?thesis
    by (auto simp: hex_digit_def is_lower_hex_def)
qed

lemma length_toHex: "length (toHex bs) = 2 * length bs"
  by (induction bs) (simp_all add: toHex_def)

lemma toHex_lower: "list_all is_lower_hex (toHex bs)"
proof (induction bs)
  case Nil
  show ?case by (simp add: toHex_def)
next
  case (Cons b bs)
  have "unat b < 256"
    using unsigned_less [of b] by simp
  then have "unat b div 16 < 16" and "unat b mod 16 < 16"
    by simp_all
  then have "is_lower_hex (hex_digit (unat b div 16))" "is_lower_hex (hex_digit (unat b mod 16))"
    by (simp_all add: hex_digit_lower)
  with Cons show ?case by (simp add: toHex_def)
qed

lemma unat_hex_digit: "n < 16 \<Longrightarrow> unat (hex_digit n) = (if n < 10 then 48 + n else 87 + n)"
proof -
  assume "n < 16"
  then have "n \<in> {0, 1, 2, 3, 4, 5, 6, 7, 8, 9, 10, 11, 12, 13, 14, 15}"
    by simp arith
  then show ?thesis
    by (auto simp: hex_digit_def)
qed

lemma hex_digit_inj:
  assumes "m < 16" "n < 16" "hex_digit m = hex_digit n"
  shows "m = n"
proof -
  from assms(3) have "unat (hex_digit m) = unat (hex_digit n)" by simp
  with assms(1,2) show ?thesis
    by (simp add: unat_hex_digit split: if_splits)
qed

lemma hex_pair_inj:
  fixes x y :: "8 word"
  assumes "hex_digit (unat x div 16) = hex_digit (unat y div 16)"
      and "hex_digit (unat x mod 16) = hex_digit (unat y mod 16)"
  shows "x = y"
proof -
  have bx: "unat x < 256" and "unat y < 256"
    using unsigned_less [of x] unsigned_less [of y] by simp_all
  then have "unat x div 16 < 16" "unat y div 16 < 16" by simp_all
  with assms(1) have d: "unat x div 16 = unat y div 16"
    by (rule hex_digit_inj [rotated 2])
  have "unat x mod 16 < 16" "unat y mod 16 < 16" by simp_all
  with assms(2) have m: "unat x mod 16 = unat y mod 16"
    by (rule hex_digit_inj [rotated 2])
  from d m have "unat x = unat y"
    by (metis div_mult_mod_eq)
  then show ?thesis by (rule word_unat_eq_iff [THEN iffD2])
qed

lemma toHex_inj: "toHex a = toHex b \<Longrightarrow> a = b"
proof (induction a arbitrary: b)
  case Nil
  then show ?case by (cases b) (simp_all add: toHex_def)
next
  case (Cons x xs)
  then obtain y ys where b: "b = y # ys"
    by (cases b) (simp_all add: toHex_def)
  from Cons.prems have h: "hex_digit (unat x div 16) = hex_digit (unat y div 16)"
    "hex_digit (unat x mod 16) = hex_digit (unat y mod 16)" and t: "toHex xs = toHex ys"
    by (simp_all add: b toHex_def)
  from hex_pair_inj [OF h] Cons.IH [OF t] show ?case by (simp add: b)
qed

lemma generateApiKey_inj:
  "generateApiKey f = generateApiKey g \<Longrightarrow> map f [0..<32] = map g [0..<32]"
  by (auto simp: generateApiKey_def randomBytes_def dest: toHex_inj)

lemma execute_insert_key:
  "refusal cfg InsertApiKey [PStr k, PStr n] = None \<Longrightarrow>
   execute cfg now InsertApiKey [PStr k, PStr n] d =
     (if \<exists>r \<in> set (api_keys d). collate cfg (api_key r) = collate cfg k
      then (Inl (StoreError ''Duplicate entry for key api_key''),
            d\<lparr>issued := issued d @ [(InsertApiKey, [PStr k, PStr n])]\<rparr>)
      else (Inr OkPacket,
            d\<lparr>issued := issued d @ [(InsertApiKey, [PStr k, PStr n])],
              api_keys := api_keys d @
                 [\<lparr>api_key = k, app_name = n, created_at = now, last_used = None,
                   is_active = True\<rparr>]\<rparr>))"
  by (simp add: execute_def Let_def run_def)

lemma post_api_keys_created:
  assumes "post_api_keys cfg now entropy req d = ((201, answer), d')"
  shows "\<exists>n. header_app_name req = Some n
           \<and> answer = JObj [(''app_name'', JStr n), (''apiKey'', JStr (generateApiKey entropy))]
           \<and> api_keys d' = api_keys d @
                [\<lparr>api_key = generateApiKey entropy, app_name = n, created_at = now,
                  last_used = None, is_active = True\<rparr>]"
proof -
  let ?ps = "[PStr (generateApiKey entropy), to_param (header_app_name req)]"
  obtain r d1 where ex: "execute cfg now InsertApiKey ?ps d = (r, d1)"
    by (cases "execute cfg now InsertApiKey ?ps d") auto
  from assms ex obtain ok where ok: "r = Inr ok" and d1: "d1 = d'"
    and answer: "answer = JObj (object [(''app_name'', map_option JStr (header_app_name req)),
                                  (''apiKey'', Some (JStr (generateApiKey entropy)))])"
    by (cases r) (auto simp: post_api_keys_def Let_def)
  from execute_Inr_no_undefined [OF ex [unfolded ok]]
  have u: "to_param (header_app_name req) \<noteq> PUndefined"
    and rf: "refusal cfg InsertApiKey ?ps = None"
    by auto
  from u obtain n where n: "header_app_name req = Some n"
    by (cases "header_app_name req") (auto simp: to_param_def)
  have ps: "?ps = [PStr (generateApiKey entropy), PStr n]"
    by (simp add: n to_param_def)
  from ex ok d1 rf
  have "api_keys d' = api_keys d @
                [\<lparr>api_key = generateApiKey entropy, app_name = n, created_at = now,
                  last_used = None, is_active = True\<rparr>]"
    unfolding ps by (auto simp: execute_insert_key split: if_splits)
  with n answer show ?thesis by simp
qed

lemma post_api_keys_accepts:
  assumes "header_app_name req = Some n"
      and "refusal cfg InsertApiKey [PStr (generateApiKey entropy), PStr n] = None"
      and "\<forall>r \<in> set (api_keys d). collate cfg (api_key r) \<noteq> collate cfg (generateApiKey entropy)"
  shows "fst (fst (post_api_keys cfg now entropy req d)) = 201"
  using assms
  by (simp add: post_api_keys_def Let_def to_param_def execute_insert_key)

lemma execute_Inl_api_keys:
  "execute cfg now InsertApiKey ps d = (Inl e, d1) \<Longrightarrow> api_keys d1 = api_keys d"
  by (auto simp: execute_def Let_def run_def bad_arguments_def
      split: if_splits option.splits list.splits param.splits)

lemma post_api_keys_status:
  "fst (fst (post_api_keys cfg now entropy req d)) = 201
   \<or> fst (fst (post_api_keys cfg now entropy req d)) = 500
     \<and> api_keys (snd (post_api_keys cfg now entropy req d)) = api_keys d"
proof -
  let ?ps = "[PStr (generateApiKey entropy), to_param (header_app_name req)]"
  obtain r d1 where ex: "execute cfg now InsertApiKey ?ps d = (r, d1)"
    by (cases "execute cfg now InsertApiKey ?ps d") auto
  show ?thesis
  proof (cases r)
    case (Inl e)
    with ex execute_Inl_api_keys [of cfg now ?ps d e d1] show ?thesis
      by (simp add: post_api_keys_def Let_def)
  next
    case (Inr ok)
    with ex show ?thesis
      by (simp add: post_api_keys_def Let_def)
  qed
qed

lemma post_api_keys_keeps_stamps:
  assumes "\<forall>r \<in> set (api_keys d). stamp_le (last_used r) (Some now)"
  shows "\<forall>r \<in> set (api_keys (snd (post_api_keys cfg now entropy req d))).
           stamp_le (last_used r) (Some now)"
proof -
  obtain st answer d' where p: "post_api_keys cfg now entropy req d = ((st, answer), d')"
    by (metis prod.collapse)
  show ?thesis
  proof (cases "st = 201")
    case True
    with post_api_keys_created [of cfg now entropy req d answer d'] p assms show ?thesis
      by auto
  next
    case False
    with post_api_keys_status [of cfg now entropy req d] p assms show ?thesis
      by auto
  qed
qed

lemma stamps_later:
  assumes "\<forall>r \<in> set rs. stamp_le (last_used r) (Some now)" and "now \<le> later"
  shows "\<forall>r \<in> set rs. stamp_le (last_used r) (Some later)"
proof
  fix r assume "r \<in> set rs"
  with assms(1) have "stamp_le (last_used r) (Some now)" by blast
  with assms(2) show "stamp_le (last_used r) (Some later)"
    by (cases "last_used r") simp_all
qed

text \<open>
  C7, as amended. The token of every call is the lowercase hexadecimal rendering of 32
  bytes (256 bits) read from the random source: exactly 64 characters, each in
  \<open>0-9a-f\<close>, and two tokens are equal only when all 32 bytes are. A call answers 201
  whenever the request names an application in the \<open>app-name\<close> header and the server
  accepts the insert (the token is not yet a key of the store); a call that answers 201
  has added one record with that token, the application name of the request and the
  active flag set, and returns that token in the body. Every other call answers 500 and
  adds no record.
\<close>

theorem issue_token_and_record:
  "length (generateApiKey entropy) = 64
   \<and> list_all is_lower_hex (generateApiKey entropy)
   \<and> generateApiKey entropy = toHex (map entropy [0..<32])
   \<and> (\<forall>other. generateApiKey other = generateApiKey entropy \<longrightarrow>
          map other [0..<32] = map entropy [0..<32])
   \<and> (\<forall>answer d'. post_api_keys cfg now entropy req d = ((201, answer), d') \<longrightarrow>
         (\<exists>n. header_app_name req = Some n
            \<and> answer = JObj [(''app_name'', JStr n), (''apiKey'', JStr (generateApiKey entropy))]
            \<and> api_keys d' = api_keys d @
                 [\<lparr>api_key = generateApiKey entropy, app_name = n, created_at = now,
                   last_used = None, is_active = True\<rparr>]))
   \<and> (\<forall>n. header_app_name req = Some n
          \<and> refusal cfg InsertApiKey [PStr (generateApiKey entropy), PStr n] = None
          \<and> (\<forall>r \<in> set (api_keys d). collate cfg (api_key r) \<noteq> collate cfg (generateApiKey entropy))
          \<longrightarrow> fst (fst (post_api_keys cfg now entropy req d)) = 201)
   \<and> (fst (fst (post_api_keys cfg now entropy req d)) = 201
        \<or> fst (fst (post_api_keys cfg now entropy req d)) = 500
          \<and> api_keys (snd (post_api_keys cfg now entropy req d)) = api_keys d)"
proof -
  have 1: "length (generateApiKey entropy) = 64"
    by (simp add: generateApiKey_def length_toHex randomBytes_def)
  have 2: "list_all is_lower_hex (generateApiKey entropy)"
    by (simp add: generateApiKey_def toHex_lower)
  have 3: "generateApiKey entropy = toHex (map entropy [0..<32])"
    by (simp add: generateApiKey_def randomBytes_def)
  have 4: "\<forall>other. generateApiKey other = generateApiKey entropy \<longrightarrow>
          map other [0..<32] = map entropy [0..<32]"
    using generateApiKey_inj by blast
  from 1 2 3 4 post_api_keys_created [of cfg now entropy req d]
    post_api_keys_accepts [of req _ cfg entropy d now]
    post_api_keys_status [of cfg now entropy req d]
  show ?thesis by blast
qed

text \<open>
  C7, the theorem on an empty store and a request naming \<open>app1\<close>.
\<close>

theorem issue_token_and_record_witness:
  "post_api_keys binary_server 20 sample_entropy header_request empty_db =
     ((201, JObj [(''app_name'', JStr (js ''app1'')), (''apiKey'', JStr (generateApiKey sample_entropy))]),
      \<lparr>api_keys = [\<lparr>api_key = generateApiKey sample_entropy, app_name = js ''app1'',
                     created_at = 20, last_used = None, is_active = True\<rparr>],
       KEV_Catalog = None,
       issued = [(InsertApiKey, [PStr (generateApiKey sample_entropy), PStr (js ''app1'')])]\<rparr>)
   \<and> header_app_name header_request = Some (js ''app1'')
   \<and> refusal binary_server InsertApiKey [PStr (generateApiKey sample_entropy), PStr (js ''app1'')] = None
   \<and> list_all (\<lambda>r. collate binary_server (api_key r) \<noteq> collate binary_server (generateApiKey sample_entropy))
        (api_keys empty_db)
   \<and> length (generateApiKey sample_entropy) = 64
   \<and> fst (fst (post_api_keys binary_server 20 sample_entropy header_request empty_db)) = 201"
proof -
  have p: "post_api_keys binary_server 20 sample_entropy header_request empty_db =
     ((201, JObj [(''app_name'', JStr (js ''app1'')), (''apiKey'', JStr (generateApiKey sample_entropy))]),
      \<lparr>api_keys = [\<lparr>api_key = generateApiKey sample_entropy, app_name = js ''app1'',
                     created_at = 20, last_used = None, is_active = True\<rparr>],
       KEV_Catalog = None,
       issued = [(InsertApiKey, [PStr (generateApiKey sample_entropy), PStr (js ''app1'')])]\<rparr>)"
    by (simp add: post_api_keys_def header_request_def empty_db_def binary_server_def execute_def
        run_def to_param_def Let_def)
  have h: "header_app_name header_request = Some (js ''app1'')"
    by (simp add: header_request_def)
  have r: "refusal binary_server InsertApiKey [PStr (generateApiKey sample_entropy), PStr (js ''app1'')] = None"
    by (simp add: binary_server_def)
  have c: "list_all (\<lambda>r. collate binary_server (api_key r) \<noteq> collate binary_server (generateApiKey sample_entropy))
        (api_keys empty_db)"
    by (simp add: empty_db_def)
  then have c': "\<forall>r \<in> set (api_keys empty_db).
      collate binary_server (api_key r) \<noteq> collate binary_server (generateApiKey sample_entropy)"
    by (simp only: list_all_iff)
  note t = issue_token_and_record [of sample_entropy binary_server 20 header_request empty_db]
  from t have l: "length (generateApiKey sample_entropy) = 64" by blast
  from t h r c' have s: "fst (fst (post_api_keys binary_server 20 sample_entropy header_request empty_db)) = 201"
    by blast
  from p h r c l s show ?thesis by blast
qed

text \<open>
  C7 as stated fails on a call without the \<open>app-name\<close> header: the insert is rejected,
  the answer is 500 without a token, and the store holds the records it held before.
\<close>

theorem nameless_call_stores_nothing_counterexample:
  "header_app_name bare_request = None
   \<and> api_keys sample_db = [sample_row]
   \<and> post_api_keys binary_server 20 sample_entropy bare_request sample_db =
       ((500, error_body ''Bind parameters must not contain undefined. To pass SQL NULL specify JS null''),
        \<lparr>api_keys = [sample_row], KEV_Catalog = None,
         issued = [(InsertApiKey, [PStr (generateApiKey sample_entropy), PUndefined])]\<rparr>)"
  by (simp add: post_api_keys_def bare_request_def sample_db_def execute_def to_param_def Let_def)

text \<open>
  C8, as amended. \<open>POST /api-keys\<close> requires no authentication: its answer does not
  depend on any API key of the request, and the insert is the only statement it issues.
  It takes the application name from the \<open>app-name\<close> header only: the \<open>app_name\<close> of
  the body or of the query changes nothing, and without the header the answer is 500.
  On success it answers 201 with an object of exactly the fields \<open>app_name\<close> and
  \<open>apiKey\<close>.
\<close>

theorem post_api_keys_header_only:
  "post_api_keys cfg now entropy
      (req\<lparr>header_x_api_key := a, query_api_key := b, query_app_name := c, body := e\<rparr>) d
     = post_api_keys cfg now entropy req d
   \<and> issued (snd (post_api_keys cfg now entropy req d)) =
       issued d @ [(InsertApiKey, [PStr (generateApiKey entropy), to_param (header_app_name req)])]
   \<and> (fst (fst (post_api_keys cfg now entropy req d)) = 201 \<longrightarrow>
        (\<exists>n. header_app_name req = Some n
           \<and> snd (fst (post_api_keys cfg now entropy req d)) =
               JObj [(''app_name'', JStr n), (''apiKey'', JStr (generateApiKey entropy))]))
   \<and> (header_app_name req = None \<longrightarrow> fst (fst (post_api_keys cfg now entropy req d)) = 500)
   \<and> (\<forall>n. header_app_name req = Some n
          \<and> refusal cfg InsertApiKey [PStr (generateApiKey entropy), PStr n] = None
          \<and> (\<forall>r \<in> set (api_keys d). collate cfg (api_key r) \<noteq> collate cfg (generateApiKey entropy))
          \<longrightarrow> fst (fst (post_api_keys cfg now entropy req d)) = 201)"
proof -
  have 1: "post_api_keys cfg now entropy
      (req\<lparr>header_x_api_key := a, query_api_key := b, query_app_name := c, body := e\<rparr>) d
     = post_api_keys cfg now entropy req d"
    by (simp add: post_api_keys_def)
  let ?ps = "[PStr (generateApiKey entropy), to_param (header_app_name req)]"
  have "issued (snd (execute cfg now InsertApiKey ?ps d)) = issued d @ [(InsertApiKey, ?ps)]"
    by (rule execute_issued)
  then have 2: "issued (snd (post_api_keys cfg now entropy req d)) = issued d @ [(InsertApiKey, ?ps)]"
    by (auto simp: post_api_keys_def Let_def split: prod.splits sum.splits)
  have 3: "fst (fst (post_api_keys cfg now entropy req d)) = 201 \<longrightarrow>
        (\<exists>n. header_app_name req = Some n
           \<and> snd (fst (post_api_keys cfg now entropy req d)) =
               JObj [(''app_name'', JStr n), (''apiKey'', JStr (generateApiKey entropy))])"
  proof
    assume s: "fst (fst (post_api_keys cfg now entropy req d)) = 201"
    obtain answer d' where "post_api_keys cfg now entropy req d = ((201, answer), d')"
      using s by (metis prod.collapse)
    from post_api_keys_created [OF this] this
    show "\<exists>n. header_app_name req = Some n
           \<and> snd (fst (post_api_keys cfg now entropy req d)) =
               JObj [(''app_name'', JStr n), (''apiKey'', JStr (generateApiKey entropy))]"
      by auto
  qed
  have 4: "header_app_name req = None \<longrightarrow> fst (fst (post_api_keys cfg now entropy req d)) = 500"
    by (simp add: post_api_keys_def Let_def to_param_def execute_undefined)
  from 1 2 3 4 post_api_keys_accepts [of req _ cfg entropy d now]
  show ?thesis by blast
qed

text \<open>
  C8, the theorem on a request naming \<open>app1\<close> in the header and on one naming it in the
  body only.
\<close>

theorem post_api_keys_header_only_witness:
  "fst (fst (post_api_keys binary_server 20 sample_entropy header_request empty_db)) = 201
   \<and> header_app_name header_request = Some (js ''app1'')
   \<and> snd (fst (post_api_keys binary_server 20 sample_entropy header_request empty_db)) =
       JObj [(''app_name'', JStr (js ''app1'')), (''apiKey'', JStr (generateApiKey sample_entropy))]
   \<and> header_app_name body_only_request = None
   \<and> fst (fst (post_api_keys binary_server 20 sample_entropy body_only_request empty_db)) = 500"
proof -
  have s: "fst (fst (post_api_keys binary_server 20 sample_entropy header_request empty_db)) = 201"
    by (simp add: post_api_keys_def header_request_def empty_db_def binary_server_def execute_def
        run_def to_param_def Let_def)
  have h: "header_app_name header_request = Some (js ''app1'')"
    by (simp add: header_request_def)
  have n: "header_app_name body_only_request = None"
    by (simp add: body_only_request_def)
  note t1 = post_api_keys_header_only [where cfg = binary_server and now = 20
      and entropy = sample_entropy and req = header_request and d = empty_db]
  note t2 = post_api_keys_header_only [where cfg = binary_server and now = 20
      and entropy = sample_entropy and req = body_only_request and d = empty_db]
  from t1 s h have b: "snd (fst (post_api_keys binary_server 20 sample_entropy header_request empty_db)) =
       JObj [(''app_name'', JStr (js ''app1'')), (''apiKey'', JStr (generateApiKey sample_entropy))]"
    by auto
  from t2 n have f: "fst (fst (post_api_keys binary_server 20 sample_entropy body_only_request empty_db)) = 500"
    by blast
  from s h b n f show ?thesis by blast
qed

text \<open>
  C8 as stated fails on a request that supplies the application name in the body only:
  the answer is 500 and no key is stored.
\<close>

theorem body_name_not_accepted_counterexample:
  "body body_only_request = Some (Some (js ''app1''))
   \<and> post_api_keys binary_server 20 sample_entropy body_only_request empty_db =
       ((500, error_body ''Bind parameters must not contain undefined. To pass SQL NULL specify JS null''),
        \<lparr>api_keys = [], KEV_Catalog = None,
         issued = [(InsertApiKey, [PStr (generateApiKey sample_entropy), PUndefined])]\<rparr>)"
  by (simp add: post_api_keys_def body_only_request_def empty_db_def execute_def to_param_def Let_def)


section \<open>The timestamp bound along a run\<close>

text \<open>
  The condition under which \<open>last_used\<close> does not decrease is kept by the program
  itself: served at times that do not decrease, key issuance and the gate leave no
  stored timestamp after the time of the last call.
\<close>

lemma verifyApiKey_api_keys:
  "api_keys (snd (verifyApiKey cfg now req d)) = api_keys d
   \<or> (\<exists>k n. api_keys (snd (verifyApiKey cfg now req d)) = map (touch cfg now k n) (api_keys d))"
proof (cases "claimed_name req")
  case (Inl e)
  then show ?thesis by (simp add: verifyApiKey_thrown)
next
  case (Inr v)
  show ?thesis
  proof (cases "truthy (presented_key req)")
    case False
    from verifyApiKey_keyless [OF False Inr] show ?thesis by simp
  next
    case True
    then obtain k where k: "presented_key req = Some k" "k \<noteq> []"
      by (auto simp: truthy_def split: option.splits)
    show ?thesis
    proof (cases v)
      case None
      from verifyApiKey_unnamed [OF k Inr [unfolded None]] show ?thesis by simp
    next
      case (Some n)
      note name = Inr [unfolded Some]
      show ?thesis
      proof (cases "refusal cfg SelectApiKey [PStr k, PStr n]")
        case None
        from verifyApiKey_named [OF k name None, of now d] show ?thesis
          by (auto split: list.splits option.splits)
      next
        case (Some e)
        have "execute cfg now SelectApiKey [PStr k, PStr n] d =
            (Inl e, d\<lparr>issued := issued d @ [(SelectApiKey, [PStr k, PStr n])]\<rparr>)"
          by (rule execute_refused [OF Some]) simp
        then have "verifyApiKey cfg now req d =
            (Respond (500, error_body ''Failed to authenticate API key''),
             d\<lparr>issued := issued d @ [(SelectApiKey, [PStr k, PStr n])]\<rparr>)"
          unfolding verifyApiKey_def Let_def k(1) name sum.case
          by (simp add: truthy_def k(2) to_param_def)
        then show ?thesis by simp
      qed
    qed
  qed
qed

lemma verifyApiKey_keeps_stamps:
  assumes "\<forall>r \<in> set (api_keys d). stamp_le (last_used r) (Some now)"
  shows "\<forall>r \<in> set (api_keys (snd (verifyApiKey cfg now req d))). stamp_le (last_used r) (Some now)"
proof -
  from verifyApiKey_api_keys [of cfg now req d]
  consider "api_keys (snd (verifyApiKey cfg now req d)) = api_keys d"
    | k n where "api_keys (snd (verifyApiKey cfg now req d)) = map (touch cfg now k n) (api_keys d)"
    by blast
  then show ?thesis
  proof cases
    case 1
    with assms show ?thesis by simp
  next
    case 2
    with stamps_touched [OF assms, of cfg k n] show ?thesis by simp
  qed
qed

lemma serve_keeps_stamps:
  assumes "sorted (map fst cs)"
      and "\<forall>t \<in> set (map fst cs). start \<le> t"
      and "\<forall>r \<in> set (api_keys d). stamp_le (last_used r) (Some start)"
  shows "\<forall>r \<in> set (api_keys (serve cfg cs d)). stamp_le (last_used r) (Some (last (start # map fst cs)))"
  using assms
proof (induction cs arbitrary: d start)
  case Nil
  then show ?case by simp
next
  case (Cons c cs)
  obtain now op where c: "c = (now, op)" by (cases c)
  from Cons.prems(2) have le: "start \<le> now" by (simp add: c)
  from stamps_later [OF Cons.prems(3) le]
  have b: "\<forall>r \<in> set (api_keys d). stamp_le (last_used r) (Some now)" .
  from Cons.prems(1) have so: "sorted (map fst cs)" and ge: "\<forall>t \<in> set (map fst cs). now \<le> t"
    by (simp_all add: c)
  show ?case
  proof (cases op)
    case (Issue entropy req)
    from post_api_keys_keeps_stamps [OF b, of cfg entropy req]
    have "\<forall>r \<in> set (api_keys (snd (post_api_keys cfg now entropy req d))).
            stamp_le (last_used r) (Some now)" .
    from Cons.IH [OF so ge this] show ?thesis
      by (simp add: c Issue)
  next
    case (Authenticate req)
    from verifyApiKey_keeps_stamps [OF b, of cfg req]
    have "\<forall>r \<in> set (api_keys (snd (verifyApiKey cfg now req d))).
            stamp_le (last_used r) (Some now)" .
    from Cons.IH [OF so ge this] show ?thesis
      by (simp add: c Authenticate)
  qed
qed


section \<open>Properties of the row count\<close>

lemma execute_count:
  assumes "refusal cfg CountCveID [] = None" "KEV_Catalog d = Some t"
    "cveID \<in> fst ` set (columns t)"
  shows "execute cfg now CountCveID [] d =
     (Inr (CountOf (length (filter counted (rows t)))),
      d\<lparr>issued := issued d @ [(CountCveID, [])]\<rparr>)"
  using assms by (simp add: execute_def Let_def run_def)

lemma count_handler_answer:
  assumes "refusal cfg CountCveID [] = None" "KEV_Catalog d = Some t"
    "cveID \<in> fst ` set (columns t)"
  shows "fst (count_handler cfg now application d) =
           (200, JArr [JObj [(''count'', JNum (length (filter counted (rows t))))]])"
  by (simp add: count_handler_def execute_count [OF assms])

text \<open>
  C9, as amended. For an authenticated request, when the catalog table exists with a
  \<open>cveID\<close> column and the server carries out the count, \<open>GET /count\<close> answers 200 with
  an array holding a single object \<open>{count}\<close>; when every catalog row has a \<open>cveID\<close>
  value, \<open>count\<close> is the number of rows of the catalog table.
\<close>

theorem count_of_catalog_rows:
  assumes auth: "verifyApiKey cfg now req d = (Next row, d1)"
      and tab: "KEV_Catalog d = Some t" "cveID \<in> fst ` set (columns t)"
      and ok: "refusal cfg CountCveID [] = None"
  shows "(\<exists>n. fst (get_count cfg now req d) = Inr (200, JArr [JObj [(''count'', JNum n)]]))
       \<and> (list_all counted (rows t) \<longrightarrow>
            fst (get_count cfg now req d) =
              Inr (200, JArr [JObj [(''count'', JNum (length (rows t)))]]))"
proof -
  from auth have "KEV_Catalog d1 = KEV_Catalog d"
    by (rule verifyApiKey_Next) simp
  with tab have t1: "KEV_Catalog d1 = Some t" by simp
  have g: "fst (get_count cfg now req d) =
      Inr (200, JArr [JObj [(''count'', JNum (length (filter counted (rows t))))]])"
    using count_handler_answer [OF ok t1 tab(2), of now row]
    by (auto simp: get_count_def protected_def auth split: prod.splits)
  have "filter counted (rows t) = rows t" if "list_all counted (rows t)"
    using that by (simp add: list_all_iff)
  with g show ?thesis by auto
qed

text \<open>
  C9, the theorem on a catalog of two rows.
\<close>

theorem count_of_catalog_rows_witness:
  "fst (verifyApiKey binary_server 20 sample_request full_catalog_db) = Next sample_row
   \<and> cveID \<in> fst ` set (columns (the (KEV_Catalog full_catalog_db)))
   \<and> refusal binary_server CountCveID [] = None
   \<and> list_all counted (rows (the (KEV_Catalog full_catalog_db)))
   \<and> fst (get_count binary_server 20 sample_request full_catalog_db) =
       Inr (200, JArr [JObj [(''count'', JNum 2)]])"
proof -
  obtain d1 where v: "verifyApiKey binary_server 20 sample_request full_catalog_db = (Next sample_row, d1)"
    by (simp add: full_catalog_db_def sample_key_def sample_row_def sample_db_def sample_request_def js_def verifyApiKey_def execute_def run_def sql_eq_def or_else_def truthy_def
      to_param_def Let_def presented_key_def claimed_name_def error_body_def binary_server_def)
  let ?t = "the (KEV_Catalog full_catalog_db)"
  have t: "KEV_Catalog full_catalog_db = Some ?t"
    by (simp add: full_catalog_db_def)
  have c: "cveID \<in> fst ` set (columns ?t)"
    by (simp add: full_catalog_db_def)
  have r: "refusal binary_server CountCveID [] = None"
    by (simp add: binary_server_def)
  have f: "list_all counted (rows ?t)"
    by (simp add: full_catalog_db_def counted_def)
  have l: "length (rows ?t) = 2"
    by (simp add: full_catalog_db_def)
  from count_of_catalog_rows [OF v t c r] f l
  have "fst (get_count binary_server 20 sample_request full_catalog_db) =
       Inr (200, JArr [JObj [(''count'', JNum 2)]])"
    by simp
  with v c r f show ?thesis by simp
qed

text \<open>
  C9 as stated fails on a catalog of two rows, one of them without a \<open>cveID\<close> value:
  the body is an array, not the single object \<open>{count: 2}\<close>, and the count in it is 1.
\<close>

theorem count_is_array_counterexample:
  "length (rows (the (KEV_Catalog catalog_db))) = 2
   \<and> fst (get_count binary_server 20 sample_request catalog_db) =
       Inr (200, JArr [JObj [(''count'', JNum 1)]])
   \<and> fst (get_count binary_server 20 sample_request catalog_db) \<noteq>
       Inr (200, JObj [(''count'', JNum 2)])"
  by (simp add: get_count_def protected_def count_handler_def catalog_db_def sample_key_def
      sample_row_def sample_db_def sample_request_def js_def verifyApiKey_def execute_def
      run_def sql_eq_def or_else_def truthy_def to_param_def Let_def presented_key_def
      claimed_name_def error_body_def binary_server_def counted_def cveID_def)


section \<open>Properties of the catalog loader\<close>

text \<open>
  C2. When the download succeeds and the feed parses to zero records, the refresh fails
  with the error \<open>No data found in CSV file\<close> and the store is exactly as before: the
  catalog table, and the list of issued statements, are unchanged.
\<close>

theorem empty_feed_rejected:
  assumes "fetched e = Inr csvData" and "write_error e = None" and "parse e csvData = Inr []"
  shows "updateKEVCatalogFromCSV cfg e now w =
           (Inl (Error ''No data found in CSV file''), w\<lparr>temp_file := Some csvData\<rparr>)
       \<and> store (snd (updateKEVCatalogFromCSV cfg e now w)) = store w"
  using assms by (simp add: updateKEVCatalogFromCSV_def downloadCSV_def)

text \<open>
  C2, the theorem on a header-only feed and a store that holds a catalog.
\<close>

theorem empty_feed_rejected_witness:
  "fetched header_only_feed = Inr sample_csv \<and> write_error header_only_feed = None
   \<and> parse header_only_feed sample_csv = Inr []
   \<and> fst (updateKEVCatalogFromCSV binary_server header_only_feed 20 sample_world) =
       Inl (Error ''No data found in CSV file'')
   \<and> store (snd (updateKEVCatalogFromCSV binary_server header_only_feed 20 sample_world)) =
       full_catalog_db"
proof -
  have h: "fetched header_only_feed = Inr sample_csv" "write_error header_only_feed = None"
    "parse header_only_feed sample_csv = Inr []"
    by (simp_all add: header_only_feed_def)
  have s: "store sample_world = full_catalog_db"
    by (simp add: sample_world_def)
  from empty_feed_rejected [OF h, of binary_server 20 sample_world] s
  have "fst (updateKEVCatalogFromCSV binary_server header_only_feed 20 sample_world) =
       Inl (Error ''No data found in CSV file'')
   \<and> store (snd (updateKEVCatalogFromCSV binary_server header_only_feed 20 sample_world)) =
       full_catalog_db"
    by simp
  with h show ?thesis by blast
qed

lemma execute_insert_kev:
  assumes "execute cfg now (InsertKev hs) ps d = (Inr ok, d1)"
  shows "\<exists>t. KEV_Catalog d = Some t
           \<and> d1 = d\<lparr>issued := issued d @ [(InsertKev hs, ps)],
                    KEV_Catalog := Some (t\<lparr>rows := rows t @ [zip hs ps]\<rparr>)\<rparr>"
  using assms
  by (auto simp: execute_def Let_def run_def bad_arguments_def no_table_def
      split: if_splits option.splits)

lemma insert_records_done:
  assumes "insert_records cfg now hs rs d = (Inr u, d')" and "KEV_Catalog d = Some t"
  shows "issued d' = issued d @ map (\<lambda>r. (InsertKev hs, insert_values hs r)) rs
       \<and> KEV_Catalog d' = Some (t\<lparr>rows := rows t @ map (\<lambda>r. zip hs (insert_values hs r)) rs\<rparr>)
       \<and> api_keys d' = api_keys d"
  using assms
proof (induction rs arbitrary: d t)
  case Nil
  then show ?case by simp
next
  case (Cons r rs)
  obtain x d1 where ex: "execute cfg now (InsertKev hs) (insert_values hs r) d = (x, d1)"
    by (cases "execute cfg now (InsertKev hs) (insert_values hs r) d") auto
  with Cons.prems(1) obtain ok where x: "x = Inr ok"
    and rest: "insert_records cfg now hs rs d1 = (Inr u, d')"
    by (cases x) auto
  from execute_insert_kev [OF ex [unfolded x]] Cons.prems(2)
  have d1: "d1 = d\<lparr>issued := issued d @ [(InsertKev hs, insert_values hs r)],
                   KEV_Catalog := Some (t\<lparr>rows := rows t @ [zip hs (insert_values hs r)]\<rparr>)\<rparr>"
    by auto
  then have k1: "KEV_Catalog d1 = Some (t\<lparr>rows := rows t @ [zip hs (insert_values hs r)]\<rparr>)"
    by simp
  from Cons.IH [OF rest k1] show ?case
    by (simp add: d1)
qed

lemma execute_create:
  assumes "execute cfg now (CreateKevTable cols) [] d = (Inr ok, d1)"
  shows "issued d1 = issued d @ [(CreateKevTable cols, [])] \<and> api_keys d1 = api_keys d
       \<and> (\<exists>t. KEV_Catalog d1 = Some t)"
  using assms
  by (auto simp: execute_def Let_def run_def split: if_splits option.splits)

lemma execute_truncate:
  assumes "execute cfg now TruncateKev [] d = (Inr ok, d1)"
  shows "issued d1 = issued d @ [(TruncateKev, [])] \<and> api_keys d1 = api_keys d
       \<and> (\<exists>t. KEV_Catalog d = Some t \<and> KEV_Catalog d1 = Some (t\<lparr>rows := []\<rparr>))"
  using assms
  by (auto simp: execute_def Let_def run_def no_table_def split: if_splits option.splits)

lemma insert_values_not_empty: "PStr [] \<notin> set (insert_values hs r) \<and> PUndefined \<notin> set (insert_values hs r)"
  by (auto simp: insert_values_def value_or_null_def split: option.splits if_splits)

lemma sample_refresh:
  "fst (updateKEVCatalogFromCSV binary_server sample_feed 20 fresh_world) =
     Inr \<lparr>success = True, recordCount = 2\<rparr>"
  by (simp add: updateKEVCatalogFromCSV_def downloadCSV_def sample_feed_def fresh_world_def
      sample_db_def execute_def run_def binary_server_def Let_def table_columns_def
      sample_record1_def sample_record2_def insert_values_def value_or_null_def cveID_def js_def)

text \<open>
  C3. When the feed parses to \<open>N \<ge> 1\<close> records and the refresh succeeds, the statements
  it issued are, in this order: the creation of the table if absent, the truncation,
  and one insert per record (\<open>N\<close> inserts), each naming the columns in the order of the
  first record's keys; the table then holds exactly these \<open>N\<close> rows; a field that is
  missing or empty is bound as NULL and no insert binds an empty text; and the result
  carries \<open>recordCount = N\<close>.
\<close>

theorem refresh_truncates_then_inserts:
  assumes feed: "fetched e = Inr csvData" "parse e csvData = Inr (first # others)"
      and succ: "updateKEVCatalogFromCSV cfg e now w = (Inr res, w')"
  shows "recordCount res = length (first # others)
       \<and> issued (store w') =
           issued (store w) @ [(CreateKevTable (table_columns first), []), (TruncateKev, [])]
             @ map (\<lambda>r. (InsertKev (map fst first), insert_values (map fst first) r)) (first # others)
       \<and> (\<exists>t. KEV_Catalog (store w') = Some t
              \<and> rows t = map (\<lambda>r. zip (map fst first) (insert_values (map fst first) r)) (first # others))
       \<and> (\<forall>r \<in> set (first # others). \<forall>header \<in> set (map fst first).
              (map_of r header = None \<or> map_of r header = Some [] \<longrightarrow>
                 value_or_null (map_of r header) = PNull))
       \<and> (\<forall>r \<in> set (first # others). PStr [] \<notin> set (insert_values (map fst first) r))"
proof -
  let ?hs = "map fst first"
  let ?rs = "first # others"
  from succ feed obtain d1 d2 d3 ok1 ok2 ok3 where
    c: "execute cfg now (CreateKevTable (table_columns first)) [] (store w) = (Inr ok1, d1)"
    and t: "execute cfg now TruncateKev [] d1 = (Inr ok2, d2)"
    and i: "insert_records cfg now ?hs ?rs d2 = (Inr ok3, d3)"
    and res: "res = \<lparr>success = True, recordCount = length ?rs\<rparr>"
    and w': "store w' = d3"
    by (auto simp: updateKEVCatalogFromCSV_def downloadCSV_def Let_def
        simp del: insert_records.simps
        split: option.splits sum.splits prod.splits)
  note c' = execute_create [OF c]
  note t' = execute_truncate [OF t]
  from t' obtain tb where tb: "KEV_Catalog d2 = Some (tb\<lparr>rows := []\<rparr>)" by auto
  note i' = insert_records_done [OF i tb]
  have 1: "recordCount res = length ?rs" by (simp add: res)
  have 2: "issued (store w') =
           issued (store w) @ [(CreateKevTable (table_columns first), []), (TruncateKev, [])]
             @ map (\<lambda>r. (InsertKev ?hs, insert_values ?hs r)) ?rs"
    using c' t' i' by (simp add: w')
  have 3: "\<exists>t. KEV_Catalog (store w') = Some t
              \<and> rows t = map (\<lambda>r. zip ?hs (insert_values ?hs r)) ?rs"
    using i' by (simp add: w')
  have 4: "\<forall>r \<in> set ?rs. \<forall>header \<in> set ?hs.
              (map_of r header = None \<or> map_of r header = Some [] \<longrightarrow>
                 value_or_null (map_of r header) = PNull)"
    by (auto simp: value_or_null_def)
  have 5: "\<forall>r \<in> set ?rs. PStr [] \<notin> set (insert_values ?hs r)"
    using insert_values_not_empty by blast
  from 1 2 3 4 5 show ?thesis by blast
qed

text \<open>
  C3, the theorem on a feed of two records, the second with an empty field.
\<close>

theorem refresh_truncates_then_inserts_witness:
  "fetched sample_feed = Inr sample_csv
   \<and> parse sample_feed sample_csv = Inr [sample_record1, sample_record2]
   \<and> fst (updateKEVCatalogFromCSV binary_server sample_feed 20 fresh_world) =
       Inr \<lparr>success = True, recordCount = 2\<rparr>
   \<and> issued (store (snd (updateKEVCatalogFromCSV binary_server sample_feed 20 fresh_world))) =
       [(CreateKevTable [(cveID, sql_TEXT), (js ''vendorProject'', sql_TEXT), (js ''cwes'', sql_INT)], []),
        (TruncateKev, []),
        (InsertKev [cveID, js ''vendorProject'', js ''cwes''],
           [PStr (js ''CVE-2021-27104''), PStr (js ''Accellion''), PStr (js ''78'')]),
        (InsertKev [cveID, js ''vendorProject'', js ''cwes''],
           [PStr (js ''CVE-2021-21017''), PStr (js ''Adobe''), PNull])]"
proof -
  have f: "fetched sample_feed = Inr sample_csv"
    "parse sample_feed sample_csv = Inr [sample_record1, sample_record2]"
    by (simp_all add: sample_feed_def)
  obtain w' where u: "updateKEVCatalogFromCSV binary_server sample_feed 20 fresh_world =
      (Inr \<lparr>success = True, recordCount = 2\<rparr>, w')"
    using sample_refresh by (metis prod.collapse)
  have i0: "issued (store fresh_world) = []"
    by (simp add: fresh_world_def sample_db_def)
  have tc: "table_columns sample_record1 =
      [(cveID, sql_TEXT), (js ''vendorProject'', sql_TEXT), (js ''cwes'', sql_INT)]"
    by (simp add: table_columns_def sample_record1_def cveID_def js_def getDataType_def trim_def
        isWhiteSpace_def re_integer_def re_float_def Many1_def isDigit_def)
  have hs: "map fst sample_record1 = [cveID, js ''vendorProject'', js ''cwes'']"
    by (simp add: sample_record1_def)
  have v1: "insert_values [cveID, js ''vendorProject'', js ''cwes''] sample_record1 =
      [PStr (js ''CVE-2021-27104''), PStr (js ''Accellion''), PStr (js ''78'')]"
    and v2: "insert_values [cveID, js ''vendorProject'', js ''cwes''] sample_record2 =
      [PStr (js ''CVE-2021-21017''), PStr (js ''Adobe''), PNull]"
    by (simp_all add: insert_values_def value_or_null_def sample_record1_def sample_record2_def
        cveID_def js_def)
  from refresh_truncates_then_inserts [OF f u]
  have "issued (store w') =
       [(CreateKevTable [(cveID, sql_TEXT), (js ''vendorProject'', sql_TEXT), (js ''cwes'', sql_INT)], []),
        (TruncateKev, []),
        (InsertKev [cveID, js ''vendorProject'', js ''cwes''],
           [PStr (js ''CVE-2021-27104''), PStr (js ''Accellion''), PStr (js ''78'')]),
        (InsertKev [cveID, js ''vendorProject'', js ''cwes''],
           [PStr (js ''CVE-2021-21017''), PStr (js ''Adobe''), PNull])]"
    by (simp add: i0 tc hs v1 v2)
  with f u show ?thesis by simp
qed

end
